theory Spec2Isabelle
  imports Complex_Main "HOL-Library.Log_Nat"
begin

section \<open>Numbers and errors\<close>

text \<open>
  The analyzers are written in Python.  A Python \<open>int\<close> is unbounded and is modelled by
  \<^typ>\<open>int\<close>; \<open>//\<close> on ints is floor division, which is \<open>div\<close> on \<^typ>\<open>int\<close>.
  A raise is the left summand of the result.  The arithmetic of the analyzers raises
  \<open>ZeroDivisionError\<close> on a zero divisor and \<open>OverflowError\<close> when an int is too large
  for a float or a float is converted to an int although it is infinite.
\<close>

datatype error = ZeroDivisionError | OverflowError

definition bindE :: "error + 'a \<Rightarrow> ('a \<Rightarrow> error + 'b) \<Rightarrow> error + 'b" where
  "bindE m f = (case m of Inl e \<Rightarrow> Inl e | Inr v \<Rightarrow> f v)"

subsection \<open>Floats\<close>

text \<open>
  A Python float is an IEEE 754 binary64 number.  A finite float is modelled by the rational
  number it denotes (the two zeros are equal in Python and are both \<open>0\<close> here); the two
  infinities are values of their own.  No operation of the analyzers yields a NaN: an
  infinity is only ever divided by a finite float other than zero, which gives an infinity.
\<close>

datatype pyfloat = Fin rat | PosInf | NegInf

text \<open>Rounding to the nearest integer, a tie to the even one.\<close>

definition round_half_even :: "rat \<Rightarrow> int" where
  "round_half_even m =
     (let f = \<lfloor>m\<rfloor>; d = m - of_int f
      in if d < 1 / 2 then f else if 1 / 2 < d then f + 1 else if even f then f else f + 1)"

text \<open>The exponent \<open>e\<close> with \<open>2^e \<le> x < 2^(e+1)\<close>, for \<open>0 < x\<close>.\<close>

definition floor_log2 :: "rat \<Rightarrow> int" where
  "floor_log2 x = (if 1 \<le> x then bitlen \<lfloor>x\<rfloor> - 1 else - bitlen (\<lceil>1 / x\<rceil> - 1))"

text \<open>
  Rounding of a real value to 53 significant bits, exponent unbounded above: the spacing of
  the floats around \<open>x\<close> is \<open>2^(e - 52)\<close> for the exponent \<open>e\<close> of \<open>x\<close>, and \<open>2^(-1074)\<close>
  in the subnormal range.
\<close>

definition double_round :: "rat \<Rightarrow> rat" where
  "double_round x =
     (if x = 0 then 0
      else let e = max (floor_log2 \<bar>x\<bar>) (- 1022);
               ulp = 2 powi (e - 52)
           in of_int (round_half_even (x / ulp)) * ulp)"

text \<open>The float nearest to a real value: a rounded value of \<open>2^1024\<close> or more is infinite.\<close>

definition to_double :: "rat \<Rightarrow> pyfloat" where
  "to_double x =
     (let y = double_round x
      in if 2 ^ 1024 \<le> y then PosInf else if y \<le> - (2 ^ 1024) then NegInf else Fin y)"

text \<open>
  \<open>a / b\<close> on two ints: the quotient is rounded once; a quotient beyond the range of the
  floats raises \<open>OverflowError\<close>.
\<close>

definition truediv :: "int \<Rightarrow> int \<Rightarrow> error + rat" where
  "truediv a b =
     (if b = 0 then Inl ZeroDivisionError
      else case to_double (of_int a / of_int b) of
             Fin q \<Rightarrow> Inr q
           | PosInf \<Rightarrow> Inl OverflowError
           | NegInf \<Rightarrow> Inl OverflowError)"

text \<open>The conversion of an int operand of a float operation.\<close>

definition int_to_float :: "int \<Rightarrow> error + rat" where
  "int_to_float a =
     (case to_double (of_int a) of
        Fin x \<Rightarrow> Inr x
      | PosInf \<Rightarrow> Inl OverflowError
      | NegInf \<Rightarrow> Inl OverflowError)"

text \<open>\<open>x * y\<close> and \<open>x + y\<close> on two finite floats: no raise, the result may be infinite.\<close>

definition float_mul :: "rat \<Rightarrow> rat \<Rightarrow> pyfloat" where
  "float_mul x y = to_double (x * y)"

definition float_add :: "rat \<Rightarrow> rat \<Rightarrow> pyfloat" where
  "float_add x y = to_double (x + y)"

text \<open>\<open>x / b\<close> on a float \<open>x\<close> and a finite float \<open>b\<close> other than zero.\<close>

definition float_div :: "pyfloat \<Rightarrow> rat \<Rightarrow> pyfloat" where
  "float_div x b =
     (case x of
        Fin a \<Rightarrow> to_double (a / b)
      | PosInf \<Rightarrow> if 0 < b then PosInf else NegInf
      | NegInf \<Rightarrow> if 0 < b then NegInf else PosInf)"

text \<open>\<open>int(np.ceil(x))\<close> on a float.\<close>

definition ceil_to_int :: "pyfloat \<Rightarrow> error + int" where
  "ceil_to_int x =
     (case x of
        Fin q \<Rightarrow> Inr \<lceil>q\<rceil>
      | PosInf \<Rightarrow> Inl OverflowError
      | NegInf \<Rightarrow> Inl OverflowError)"

text \<open>
  The value of \<open>max(1, q)\<close> for a finite float \<open>q\<close>: the float if it is greater, the int
  otherwise.
\<close>

datatype pynum = PyInt int | PyFloat rat

definition max_int_float :: "int \<Rightarrow> rat \<Rightarrow> pynum" where
  "max_int_float i q = (if of_int i < q then PyFloat q else PyInt i)"

text \<open>
  A byte count as \<open>_calculate_transfer_latency\<close> receives it: an int, or the float that the
  multiplication by a float reload factor has produced.
\<close>

datatype size_bytes = IntBytes int | FloatBytes pyfloat

text \<open>\<open>total_central_cgra *= reloads\<close> on an int and the value of \<open>max(1, q)\<close>.\<close>

definition times_reloads :: "int \<Rightarrow> pynum \<Rightarrow> error + size_bytes" where
  "times_reloads total_central_cgra reloads =
     (case reloads of
        PyInt r \<Rightarrow> Inr (IntBytes (total_central_cgra * r))
      | PyFloat q \<Rightarrow>
          bindE (int_to_float total_central_cgra) (\<lambda>a. Inr (FloatBytes (float_mul a q))))"

subsection \<open>Integer division and loops\<close>

definition floordiv :: "int \<Rightarrow> int \<Rightarrow> error + int" where
  "floordiv a b = (if b = 0 then Inl ZeroDivisionError else Inr (a div b))"

text \<open>A loop that appends one result per element; the first raise aborts the whole loop.\<close>

fun mapE :: "('a \<Rightarrow> error + 'b) \<Rightarrow> 'a list \<Rightarrow> error + 'b list" where
  "mapE f [] = Inr []"
| "mapE f (x # xs) = bindE (f x) (\<lambda>r. bindE (mapE f xs) (\<lambda>rs. Inr (r # rs)))"

section \<open>hardware\_config.py\<close>

text \<open>The dictionary handed to \<open>HardwareConfig.__init__\<close>: a key may be absent.\<close>

record hw_dict =
  d_dram_size :: "int option"
  d_central_sram_size :: "int option"
  d_cgra_sram_size :: "int option"
  d_dram_latency :: "int option"
  d_central_sram_latency :: "int option"
  d_cgra_sram_latency :: "int option"
  d_dma_transfer_rate :: "int option"
  d_bus_frequency :: "int option"
  d_cgra_frequency :: "int option"

record HardwareConfig =
  dram_size :: int
  central_sram_size :: int
  cgra_sram_size :: int
  dram_latency :: int
  central_sram_latency :: int
  cgra_sram_latency :: int
  dma_transfer_rate :: int
  bus_frequency :: int
  cgra_frequency :: int

definition get_default :: "'a option \<Rightarrow> 'a \<Rightarrow> 'a" where
  "get_default v d = (case v of None \<Rightarrow> d | Some x \<Rightarrow> x)"

definition HardwareConfig_init :: "hw_dict \<Rightarrow> HardwareConfig" where
  "HardwareConfig_init config_dict =
     \<lparr> dram_size = get_default (d_dram_size config_dict) 32 * 1024 * 1024,
       central_sram_size = get_default (d_central_sram_size config_dict) 512 * 1024,
       cgra_sram_size = get_default (d_cgra_sram_size config_dict) 32 * 1024,
       dram_latency = get_default (d_dram_latency config_dict) 100,
       central_sram_latency = get_default (d_central_sram_latency config_dict) 10,
       cgra_sram_latency = get_default (d_cgra_sram_latency config_dict) 1,
       dma_transfer_rate = get_default (d_dma_transfer_rate config_dict) 16,
       bus_frequency = get_default (d_bus_frequency config_dict) 100,
       cgra_frequency = get_default (d_cgra_frequency config_dict) 100 \<rparr>"

record Utilization =
  cgra_sram :: rat
  central_sram :: rat
  dram :: rat

text \<open>\<open>BaseAnalyzer._calculate_memory_utilization\<close>; \<open>self.hw_config\<close> is the first argument.\<close>

definition calculate_memory_utilization :: "HardwareConfig \<Rightarrow> int \<Rightarrow> error + Utilization" where
  "calculate_memory_utilization hw total_memory =
     bindE (truediv total_memory (cgra_sram_size hw)) (\<lambda>q_cgra.
     bindE (truediv total_memory (central_sram_size hw)) (\<lambda>q_central.
     bindE (truediv total_memory (dram_size hw)) (\<lambda>q_dram.
       Inr \<lparr> cgra_sram = min 1 q_cgra,
             central_sram = min 1 q_central,
             dram = min 1 q_dram \<rparr>)))"

text \<open>
  \<open>BaseAnalyzer._calculate_transfer_latency\<close>: \<open>int(np.ceil(size_bytes / rate))\<close>.
  On an int the division is the one of two ints.  On a float the rate is converted first,
  then a zero rate raises, and an infinite quotient fails in the conversion to an int.
\<close>

definition calculate_transfer_latency :: "HardwareConfig \<Rightarrow> size_bytes \<Rightarrow> error + int" where
  "calculate_transfer_latency hw size_bytes =
     (case size_bytes of
        IntBytes s \<Rightarrow>
          bindE (truediv s (dma_transfer_rate hw)) (\<lambda>q. ceil_to_int (Fin q))
      | FloatBytes x \<Rightarrow>
          bindE (int_to_float (dma_transfer_rate hw)) (\<lambda>b.
            if b = 0 then Inl ZeroDivisionError else ceil_to_int (float_div x b)))"

text \<open>The two entries that both \<open>calculate_memory_access_latency\<close> methods return.\<close>

record MemLat =
  dram_to_central :: int
  central_to_cgra :: int

text \<open>The dictionary of \<open>_calculate_latencies\<close>; \<open>computation\<close> is a float for GEMM, an int for Conv.\<close>

record 'c Latencies = MemLat +
  computation :: 'c

text \<open>
  The entries that the result dictionaries of both \<open>analyze\<close> methods share;
  \<open>total_latency\<close> is a float for GEMM, an int for Conv.
\<close>

record ('m, 'c, 't) Result =
  memory :: 'm
  latencies :: "'c Latencies"
  utilization :: Utilization
  total_latency :: 't

text \<open>The working set and the reload factor, computed by both analyzers.\<close>

record Reload =
  working_set :: int
  reloads :: pynum

section \<open>gemm\_analyzer.py\<close>

record GEMMConfig =
  dimensions :: "int list"
  data_type_size :: int
  tiling_size :: "int option"

record GEMMBreakdown =
  input_a :: int
  input_b :: int
  output' :: int

record GEMMMemReq =
  per_matrix :: int
  total :: int
  breakdown :: GEMMBreakdown

record GEMMDebug = Reload +
  matrix_a_load :: int
  matrix_b_load :: int
  matrix_c_load :: int
  matrix_c_store :: int

record GEMMMemLat = MemLat +
  debug_info :: GEMMDebug

record GEMMResult = "(GEMMMemReq, rat, pyfloat) Result" +
  dimension :: int

definition gemm_calculate_memory_requirements :: "int \<Rightarrow> GEMMConfig \<Rightarrow> GEMMMemReq" where
  "gemm_calculate_memory_requirements dimv config =
     (let matrix_size = dimv * dimv * GEMMConfig.data_type_size config;
          total_memory = matrix_size * 3
      in \<lparr> per_matrix = matrix_size,
           total = total_memory,
           breakdown = \<lparr> input_a = matrix_size, input_b = matrix_size, output' = matrix_size \<rparr> \<rparr>)"

text \<open>
  The test \<open>if config.tiling_size:\<close> on an optional int: \<open>None\<close> and \<open>0\<close> are both false.
  The result is the tile side of the tiled branch, if that branch is taken.
\<close>

definition gemm_tiling :: "GEMMConfig \<Rightarrow> int option" where
  "gemm_tiling config =
     (case GEMMConfig.tiling_size config of
        None \<Rightarrow> None
      | Some t \<Rightarrow> if t = 0 then None else Some t)"

text \<open>
  The four transfer volumes \<open>(matrix_a_load, matrix_b_load, matrix_c_load, matrix_c_store)\<close>;
  the resident branch and the DRAM branch of the source compute them by the same statements.
\<close>

definition gemm_loads :: "int \<Rightarrow> int \<Rightarrow> GEMMConfig \<Rightarrow> int \<times> int \<times> int \<times> int" where
  "gemm_loads dimv matrix_size config =
     (case gemm_tiling config of
        Some tile_size \<Rightarrow>
          (let num_tiles_m = (dimv + tile_size - 1) div tile_size;
               num_tiles_n = (dimv + tile_size - 1) div tile_size;
               num_tiles_k = (dimv + tile_size - 1) div tile_size;
               tile_elements = tile_size * tile_size;
               tile_bytes = tile_elements * GEMMConfig.data_type_size config;
               matrix_a_load = tile_bytes * num_tiles_m * num_tiles_k;
               matrix_b_load = tile_bytes * num_tiles_k * num_tiles_n;
               matrix_c_load = tile_bytes * num_tiles_m * num_tiles_n;
               matrix_c_store = matrix_c_load
           in (matrix_a_load, matrix_b_load, matrix_c_load, matrix_c_store))
      | None \<Rightarrow> (matrix_size, matrix_size, matrix_size, matrix_size))"

definition gemm_working_set :: "int \<Rightarrow> int \<Rightarrow> GEMMConfig \<Rightarrow> int" where
  "gemm_working_set total_size matrix_size config =
     (case gemm_tiling config of
        Some tile_size \<Rightarrow>
          (2 * tile_size * tile_size + tile_size * tile_size) * GEMMConfig.data_type_size config
      | None \<Rightarrow> min total_size (3 * matrix_size))"

definition gemm_calculate_memory_access_latency ::
  "HardwareConfig \<Rightarrow> int \<Rightarrow> GEMMMemReq \<Rightarrow> GEMMConfig \<Rightarrow> error + GEMMMemLat" where
  "gemm_calculate_memory_access_latency hw dimv mem_req config =
     (let matrix_size = per_matrix mem_req;
          total_size = matrix_size * 3;
          (matrix_a_load, matrix_b_load, matrix_c_load, matrix_c_store) =
             gemm_loads dimv matrix_size config;
          total_central_cgra = matrix_a_load + matrix_b_load + matrix_c_load + matrix_c_store
      in
      bindE (if total_size \<le> central_sram_size hw then Inr 0
             else calculate_transfer_latency hw (IntBytes total_central_cgra)) (\<lambda>dram_to_central.
      let buffer_size = cgra_sram_size hw;
          working_set = gemm_working_set total_size matrix_size config
      in
      bindE (truediv working_set buffer_size) (\<lambda>q.
      let reloads = max_int_float 1 q in
      bindE (times_reloads total_central_cgra reloads) (\<lambda>total_central_cgra.
      bindE (calculate_transfer_latency hw total_central_cgra) (\<lambda>central_to_cgra.
        Inr \<lparr> dram_to_central = dram_to_central,
              central_to_cgra = central_to_cgra,
              debug_info = \<lparr> working_set = working_set,
                             reloads = reloads,
                             matrix_a_load = matrix_a_load,
                             matrix_b_load = matrix_b_load,
                             matrix_c_load = matrix_c_load,
                             matrix_c_store = matrix_c_store \<rparr> \<rparr>)))))"

definition gemm_calculate_latencies ::
  "HardwareConfig \<Rightarrow> int \<Rightarrow> GEMMMemReq \<Rightarrow> GEMMConfig \<Rightarrow> error + rat Latencies" where
  "gemm_calculate_latencies hw dimv mem_req config =
     bindE (gemm_calculate_memory_access_latency hw dimv mem_req config) (\<lambda>memory_latencies.
       let computation = 2 * dimv * dimv * dimv in
       bindE (truediv computation 4) (\<lambda>computation.
         Inr \<lparr> dram_to_central = dram_to_central memory_latencies,
               central_to_cgra = central_to_cgra memory_latencies,
               computation = computation \<rparr>))"

text \<open>
  One iteration of the loop of \<open>GEMMAnalyzer.analyze\<close>.  \<open>sum(latencies.values())\<close> adds
  the two int cycle counts to the int \<open>0\<close> and then the float \<open>computation\<close> to that int,
  which is converted for the addition.
\<close>

definition gemm_analyze_point :: "HardwareConfig \<Rightarrow> GEMMConfig \<Rightarrow> int \<Rightarrow> error + GEMMResult" where
  "gemm_analyze_point hw config dimv =
     (let mem_req = gemm_calculate_memory_requirements dimv config in
      bindE (gemm_calculate_latencies hw dimv mem_req config) (\<lambda>lat.
      bindE (calculate_memory_utilization hw (GEMMMemReq.total mem_req)) (\<lambda>util.
      bindE (int_to_float (0 + dram_to_central lat + central_to_cgra lat)) (\<lambda>transfer.
        Inr \<lparr> memory = mem_req,
              latencies = lat,
              utilization = util,
              total_latency = float_add transfer (computation lat),
              dimension = dimv \<rparr>))))"

definition gemm_analyze :: "HardwareConfig \<Rightarrow> GEMMConfig \<Rightarrow> error + GEMMResult list" where
  "gemm_analyze hw config = mapE (gemm_analyze_point hw config) (dimensions config)"

section \<open>conv\_analyzer.py\<close>

record ConvConfig =
  input_dimensions :: "int list"
  kernel_sizes :: "int list"
  num_channels :: int
  num_filters :: int
  data_type_size :: int
  padding :: int
  stride :: int
  dilation :: int
  groups :: int
  tiling_size :: "(int \<times> int) option"
  input_layout :: string
  kernel_layout :: string
  vectorization :: int

record ConvDims =
  input_dims :: "int \<times> int \<times> int"
  kernel_dims :: "int \<times> int \<times> int \<times> int"
  output_dims :: "int \<times> int \<times> int"

record ConvMemReq =
  input :: int
  kernel :: int
  output' :: int
  total :: int
  dimensions :: ConvDims

text \<open>
  The local variables of \<open>ConvAnalyzer.calculate_memory_access_latency\<close> that the method
  does not return: the three transfer volumes, their sum \<open>total_central_cgra\<close> before it is
  multiplied by \<open>reloads\<close> (in the DRAM branch also the value of \<open>total_dram_central\<close>),
  the working set and the reload factor.
\<close>

record ConvLocals = Reload +
  input_load :: int
  kernel_load :: int
  output_load :: int
  total_transfer :: int

record ConvTrace = MemLat +
  locals :: ConvLocals

text \<open>\<open>((dim + 2*config.padding - kernel_size) // config.stride) + 1\<close>, written out three times in the source.\<close>

definition conv_output_dim :: "int \<Rightarrow> int \<Rightarrow> ConvConfig \<Rightarrow> error + int" where
  "conv_output_dim dimv ksize config =
     bindE (floordiv (dimv + 2 * padding config - ksize) (stride config)) (\<lambda>q. Inr (q + 1))"

text \<open>
  The transfer volumes \<open>(input_load, kernel_load, output_load)\<close>.  The test
  \<open>if config.tiling_size:\<close> is on an optional pair, and a pair is true whatever it holds.
  The resident branch and the DRAM branch of the source compute the volumes by the same statements.
\<close>

definition conv_loads ::
  "int \<Rightarrow> int \<Rightarrow> int \<Rightarrow> int \<Rightarrow> int \<Rightarrow> ConvConfig \<Rightarrow> error + int \<times> int \<times> int" where
  "conv_loads dimv ksize input_size kernel_size_bytes output_size config =
     (case tiling_size config of
        Some (tile_h, tile_w) \<Rightarrow>
          bindE (floordiv (dimv + tile_h - 1) tile_h) (\<lambda>num_tiles_h.
          bindE (floordiv (dimv + tile_w - 1) tile_w) (\<lambda>num_tiles_w.
          bindE (floordiv input_size (num_tiles_h * num_tiles_w)) (\<lambda>effective_tile_size.
            let input_load =
                  effective_tile_size * num_tiles_h * num_tiles_w * (1 + (ksize - 1));
                kernel_load = kernel_size_bytes;
                output_load = output_size
            in Inr (input_load, kernel_load, output_load))))
      | None \<Rightarrow>
          (let input_load = input_size * ksize * ksize;
               kernel_load = kernel_size_bytes;
               output_load = output_size * 2
           in Inr (input_load, kernel_load, output_load)))"

definition conv_working_set :: "int \<Rightarrow> ConvConfig \<Rightarrow> int" where
  "conv_working_set total_size config =
     min total_size
       (case tiling_size config of
          Some (tile_h, tile_w) \<Rightarrow> tile_h * tile_w * num_channels config * data_type_size config
        | None \<Rightarrow> total_size)"

definition conv_memory_access_trace ::
  "HardwareConfig \<Rightarrow> int \<Rightarrow> int \<Rightarrow> ConvConfig \<Rightarrow> error + ConvTrace" where
  "conv_memory_access_trace hw dimv ksize config =
     (let input_size = dimv * dimv * num_channels config * data_type_size config;
          kernel_size_bytes =
            ksize * ksize * num_channels config * num_filters config * data_type_size config
      in
      bindE (conv_output_dim dimv ksize config) (\<lambda>output_dim.
      let output_size = output_dim * output_dim * num_filters config * data_type_size config;
          total_size = input_size + kernel_size_bytes + output_size
      in
      bindE (conv_loads dimv ksize input_size kernel_size_bytes output_size config)
        (\<lambda>(input_load, kernel_load, output_load).
      let total_central_cgra = input_load + kernel_load + output_load in
      bindE (if total_size \<le> central_sram_size hw then Inr 0
             else calculate_transfer_latency hw (IntBytes total_central_cgra)) (\<lambda>dram_to_central.
      let buffer_size = cgra_sram_size hw;
          working_set = conv_working_set total_size config
      in
      bindE (truediv working_set buffer_size) (\<lambda>q.
      let reloads = max_int_float 1 q in
      bindE (times_reloads total_central_cgra reloads) (\<lambda>scaled.
      bindE (calculate_transfer_latency hw scaled) (\<lambda>central_to_cgra.
        Inr \<lparr> dram_to_central = dram_to_central,
              central_to_cgra = central_to_cgra,
              locals = \<lparr> working_set = working_set,
                         reloads = reloads,
                         input_load = input_load,
                         kernel_load = kernel_load,
                         output_load = output_load,
                         total_transfer = total_central_cgra \<rparr> \<rparr>)))))))"

text \<open>The method as the source returns it: the two cycle counts only.\<close>

definition conv_calculate_memory_access_latency ::
  "HardwareConfig \<Rightarrow> int \<Rightarrow> int \<Rightarrow> ConvConfig \<Rightarrow> error + MemLat" where
  "conv_calculate_memory_access_latency hw dimv ksize config =
     bindE (conv_memory_access_trace hw dimv ksize config) (\<lambda>t.
       Inr \<lparr> dram_to_central = dram_to_central t, central_to_cgra = central_to_cgra t \<rparr>)"

definition conv_calculate_memory_requirements ::
  "int \<Rightarrow> int \<Rightarrow> ConvConfig \<Rightarrow> error + ConvMemReq" where
  "conv_calculate_memory_requirements input_dim ksize config =
     (let input_size = input_dim * input_dim * num_channels config * data_type_size config;
          kernel_total_size =
            ksize * ksize * num_channels config * num_filters config * data_type_size config
      in
      bindE (conv_output_dim input_dim ksize config) (\<lambda>output_dim.
      let output_size = output_dim * output_dim * num_filters config * data_type_size config;
          total_memory = input_size + kernel_total_size + output_size
      in Inr \<lparr> input = input_size,
               kernel = kernel_total_size,
               output' = output_size,
               total = total_memory,
               dimensions =
                 \<lparr> input_dims = (input_dim, input_dim, num_channels config),
                   kernel_dims = (ksize, ksize, num_channels config, num_filters config),
                   output_dims = (output_dim, output_dim, num_filters config) \<rparr> \<rparr>))"

definition conv_calculate_latencies ::
  "HardwareConfig \<Rightarrow> int \<Rightarrow> int \<Rightarrow> ConvMemReq \<Rightarrow> ConvConfig \<Rightarrow> error + int Latencies" where
  "conv_calculate_latencies hw input_dim ksize mem_req config =
     bindE (conv_calculate_memory_access_latency hw input_dim ksize config) (\<lambda>memory_latencies.
     bindE (conv_output_dim input_dim ksize config) (\<lambda>output_dim.
       let computation =
             2 * ksize * ksize * num_channels config * output_dim * output_dim * num_filters config
       in Inr \<lparr> dram_to_central = dram_to_central memory_latencies,
                central_to_cgra = central_to_cgra memory_latencies,
                computation = computation \<rparr>))"

record ConvResult = "(ConvMemReq, int, int) Result" +
  input_dimension :: int
  kernel_size :: int

text \<open>One iteration of the inner loop of \<open>ConvAnalyzer.analyze\<close>.\<close>

definition conv_analyze_point ::
  "HardwareConfig \<Rightarrow> ConvConfig \<Rightarrow> int \<Rightarrow> int \<Rightarrow> error + ConvResult" where
  "conv_analyze_point hw config dimv ksize =
     bindE (conv_calculate_memory_requirements dimv ksize config) (\<lambda>mem_req.
     bindE (conv_calculate_latencies hw dimv ksize mem_req config) (\<lambda>lat.
     bindE (calculate_memory_utilization hw (ConvMemReq.total mem_req)) (\<lambda>util.
       Inr \<lparr> memory = mem_req,
             latencies = lat,
             utilization = util,
             total_latency = 0 + dram_to_central lat + central_to_cgra lat + computation lat,
             input_dimension = dimv,
             kernel_size = ksize \<rparr>)))"

text \<open>The nested loops: for each input dimension, for each kernel size.\<close>

definition conv_analyze :: "HardwareConfig \<Rightarrow> ConvConfig \<Rightarrow> error + ConvResult list" where
  "conv_analyze hw config =
     mapE (\<lambda>(dimv, ksize). conv_analyze_point hw config dimv ksize)
       (List.product (input_dimensions config) (kernel_sizes config))"

section \<open>Reference inputs\<close>

text \<open>
  The hardware profile of the reference scenarios: 32 MiB of DRAM, 512 KiB of central SRAM,
  32 KiB of local SRAM, 16 bytes per cycle.  The sizes are given in the units of the
  configuration file; the constructor converts them to bytes.
\<close>

definition scenario_hw :: HardwareConfig where
  "scenario_hw = HardwareConfig_init
     \<lparr> d_dram_size = Some 32, d_central_sram_size = Some 512, d_cgra_sram_size = Some 32,
       d_dram_latency = None, d_central_sram_latency = None, d_cgra_sram_latency = None,
       d_dma_transfer_rate = Some 16, d_bus_frequency = Some 100, d_cgra_frequency = Some 100 \<rparr>"

text \<open>The same profile with a local SRAM of 1 KiB.\<close>

definition small_buffer_hw :: HardwareConfig where
  "small_buffer_hw = scenario_hw \<lparr> cgra_sram_size := 1024 \<rparr>"

text \<open>Untiled GEMM on 4-byte elements, for the dimensions 16 and 256.\<close>

definition scenario_gemm :: GEMMConfig where
  "scenario_gemm = \<lparr> GEMMConfig.dimensions = [16, 256], data_type_size = 4, tiling_size = None \<rparr>"

text \<open>The values that \<open>ConvConfig.__init__\<close> gives to an empty dictionary.\<close>

definition default_conv :: ConvConfig where
  "default_conv =
     \<lparr> input_dimensions = [16, 32, 64, 128], kernel_sizes = [3], num_channels = 1,
       num_filters = 1, data_type_size = 4, padding = 0, stride = 1, dilation = 1, groups = 1,
       tiling_size = None, input_layout = ''NCHW'', kernel_layout = ''KCRS'',
       vectorization = 4 \<rparr>"

section \<open>Rounding\<close>

lemma round_half_even_of_int [simp]: "round_half_even (of_int i) = i"
  by (simp add: round_half_even_def)

lemma round_half_even_ge: "of_int i \<le> m \<Longrightarrow> i \<le> round_half_even m"
proof -
  assume "of_int i \<le> m"
  then have "i \<le> \<lfloor>m\<rfloor>"
    by (simp add: le_floor_iff)
  moreover have "\<lfloor>m\<rfloor> \<le> round_half_even m"
    by (simp add: round_half_even_def Let_def)
  ultimately show ?thesis
    by simp
qed

lemma round_half_even_le: "m \<le> of_int i \<Longrightarrow> round_half_even m \<le> i"
proof (cases "m = of_int \<lfloor>m\<rfloor>")
  case True
  assume "m \<le> of_int i"
  then have "\<lfloor>m\<rfloor> \<le> i"
    by (simp add: floor_le_iff)
  moreover have "round_half_even m = \<lfloor>m\<rfloor>"
    using True by (metis round_half_even_of_int)
  ultimately show ?thesis
    by simp
next
  case False
  assume le: "m \<le> of_int i"
  have "of_int \<lfloor>m\<rfloor> < m"
    using False of_int_floor_le [of m] by (auto simp: less_le)
  with le have "of_int \<lfloor>m\<rfloor> < (of_int i :: rat)"
    by simp
  then have "\<lfloor>m\<rfloor> + 1 \<le> i"
    by simp
  moreover have "round_half_even m \<le> \<lfloor>m\<rfloor> + 1"
    by (simp add: round_half_even_def Let_def)
  ultimately show ?thesis
    by simp
qed


lemma round_half_even_minus: "round_half_even (- m) = - round_half_even m"
proof (cases "m = of_int \<lfloor>m\<rfloor>")
  case True
  then obtain i where "m = of_int i"
    by blast
  then have "- m = of_int (- i)"
    by simp
  then show ?thesis
    using \<open>m = of_int i\<close> by (metis round_half_even_of_int)
next
  case False
  then have lt: "of_int \<lfloor>m\<rfloor> < m"
    using of_int_floor_le [of m] by (auto simp: less_le)
  have "m < of_int \<lfloor>m\<rfloor> + 1"
    by linarith
  with lt have fl: "\<lfloor>- m\<rfloor> = - \<lfloor>m\<rfloor> - 1"
    by (intro floor_unique) auto
  show ?thesis
    unfolding round_half_even_def Let_def fl using lt
    by (auto simp: field_simps)
qed

section \<open>The exponent\<close>

lemma floor_log2_bounds:
  assumes "0 < x"
  shows "2 powi floor_log2 x \<le> x" and "x < 2 powi (floor_log2 x + 1)"
proof -
  have "2 powi floor_log2 x \<le> x \<and> x < 2 powi (floor_log2 x + 1)"
  proof (cases "1 \<le> x")
    case True
    define n where "n = \<lfloor>x\<rfloor>"
    have n: "0 < n"
      using True by (simp add: n_def)
    then have b1: "1 \<le> bitlen n"
      using bitlen_eq_zero_iff [of n] bitlen_nonneg [of n] by linarith
    from bitlen_bounds [OF n] have lo: "2 ^ nat (bitlen n - 1) \<le> n" and hi: "n < 2 ^ nat (bitlen n)"
      by simp_all
    have fl: "floor_log2 x = bitlen n - 1"
      using True by (simp add: floor_log2_def n_def)
    have "(2::rat) powi (bitlen n - 1) = 2 ^ nat (bitlen n - 1)"
      using b1 by (simp add: power_int_nonneg_exp)
    also have "\<dots> = of_int (2 ^ nat (bitlen n - 1))"
      by simp
    also have "\<dots> \<le> of_int n"
      using lo by (simp only: of_int_le_iff)
    also have "\<dots> \<le> x"
      by (simp add: n_def)
    finally have one: "2 powi floor_log2 x \<le> x"
      by (simp add: fl)
    from hi have "n + 1 \<le> 2 ^ nat (bitlen n)"
      by simp
    then have "(of_int (n + 1) :: rat) \<le> of_int (2 ^ nat (bitlen n))"
      by (simp only: of_int_le_iff)
    moreover have "x < of_int (n + 1)"
      unfolding n_def by linarith
    ultimately have "x < 2 ^ nat (bitlen n)"
      by simp
    also have "\<dots> = (2::rat) powi (bitlen n - 1 + 1)"
      using b1 by (simp add: power_int_nonneg_exp)
    finally have "x < 2 powi (floor_log2 x + 1)"
      by (simp add: fl)
    with one show ?thesis
      by simp
  next
    case False
    define y where "y = 1 / x"
    define n where "n = \<lceil>y\<rceil> - 1"
    have y1: "1 < y"
      using False assms by (simp add: y_def)
    then have n: "0 < n"
      unfolding n_def by linarith
    then have b1: "1 \<le> bitlen n"
      using bitlen_eq_zero_iff [of n] bitlen_nonneg [of n] by linarith
    from bitlen_bounds [OF n] have lo: "2 ^ nat (bitlen n - 1) \<le> n" and hi: "n < 2 ^ nat (bitlen n)"
      by simp_all
    have fl: "floor_log2 x = - bitlen n"
      using False by (simp add: floor_log2_def n_def y_def)
    have x: "1 / y = x"
      by (simp add: y_def)
    from hi have "n + 1 \<le> 2 ^ nat (bitlen n)"
      by simp
    then have "(of_int (n + 1) :: rat) \<le> of_int (2 ^ nat (bitlen n))"
      by (simp only: of_int_le_iff)
    moreover have "y \<le> of_int (n + 1)"
      unfolding n_def by simp
    ultimately have "y \<le> 2 ^ nat (bitlen n)"
      by simp
    also have "\<dots> = (2::rat) powi bitlen n"
      using b1 by (simp add: power_int_nonneg_exp)
    finally have yle: "y \<le> 2 powi bitlen n" .
    have "2 powi (- bitlen n) = 1 / (2::rat) powi bitlen n"
      by (simp add: power_int_minus_divide)
    also have "\<dots> \<le> 1 / y"
      using yle y1 by (intro divide_left_mono) auto
    finally have one: "2 powi floor_log2 x \<le> x"
      by (simp add: fl x)
    have "(2::rat) powi (bitlen n - 1) = 2 ^ nat (bitlen n - 1)"
      using b1 by (simp add: power_int_nonneg_exp)
    also have "\<dots> = of_int (2 ^ nat (bitlen n - 1))"
      by simp
    also have "\<dots> \<le> of_int n"
      using lo by (simp only: of_int_le_iff)
    also have "\<dots> < y"
      unfolding n_def by linarith
    finally have ylt: "2 powi (bitlen n - 1) < y" .
    have "1 / y < 1 / (2::rat) powi (bitlen n - 1)"
      using ylt y1 by (intro divide_strict_left_mono) auto
    also have "\<dots> = 2 powi (- (bitlen n - 1))"
      using power_int_minus_divide [of "2::rat" "bitlen n - 1"] by simp
    finally have "x < 2 powi (floor_log2 x + 1)"
      by (simp add: fl x)
    with one show ?thesis
      by simp
  qed
  then show "2 powi floor_log2 x \<le> x" and "x < 2 powi (floor_log2 x + 1)"
    by simp_all
qed

lemma floor_log2_less: "0 < x \<Longrightarrow> x < 2 powi k \<Longrightarrow> floor_log2 x < k"
proof (rule ccontr)
  assume x: "0 < x" and lt: "x < 2 powi k" and "\<not> floor_log2 x < k"
  then have "(2::rat) powi k \<le> 2 powi floor_log2 x"
    by (intro power_int_increasing) auto
  with floor_log2_bounds(1) [OF x] lt show False
    by simp
qed

lemma floor_log2_ge: "2 powi k \<le> x \<Longrightarrow> k \<le> floor_log2 x"
proof (rule ccontr)
  assume le: "2 powi k \<le> x" and "\<not> k \<le> floor_log2 x"
  then have "floor_log2 x + 1 \<le> k"
    by simp
  then have "(2::rat) powi (floor_log2 x + 1) \<le> 2 powi k"
    by (intro power_int_increasing) auto
  moreover have "0 < x"
    using le zero_less_power_int [of "2::rat" k, OF zero_less_numeral] by linarith
  ultimately show False
    using floor_log2_bounds(2) [of x] le by simp
qed

lemma floor_log2_eq: "2 powi e \<le> x \<Longrightarrow> x < 2 powi (e + 1) \<Longrightarrow> floor_log2 x = e"
proof -
  assume lo: "2 powi e \<le> x" and hi: "x < 2 powi (e + 1)"
  have "0 < x"
    using lo zero_less_power_int [of "2::rat" e, OF zero_less_numeral] by linarith
  from floor_log2_less [OF this hi] floor_log2_ge [OF lo] show ?thesis
    by simp
qed

section \<open>Rounding to 53 bits\<close>

lemma double_round_0 [simp]: "double_round 0 = 0"
  by (simp add: double_round_def)

lemma double_round_minus: "double_round (- x) = - double_round x"
  by (simp add: double_round_def Let_def round_half_even_minus)

text \<open>The rounding at a known exponent.\<close>

lemma double_round_at:
  assumes "2 powi e \<le> \<bar>x\<bar>" and "\<bar>x\<bar> < 2 powi (e + 1)" and "- 1022 \<le> e"
  shows "double_round x = of_int (round_half_even (x / 2 powi (e - 52))) * 2 powi (e - 52)"
proof -
  have "floor_log2 \<bar>x\<bar> = e"
    using assms(1,2) by (rule floor_log2_eq)
  moreover have "x \<noteq> 0"
  proof
    assume "x = 0"
    with assms(1) have "(2::rat) powi e \<le> 0"
      by simp
    moreover have "(0::rat) < 2 powi e"
      by simp
    ultimately show False
      by linarith
  qed
  ultimately show ?thesis
    using assms(3) by (simp add: double_round_def Let_def max_def)
qed

lemma double_round_nonneg:
  assumes "0 \<le> x"
  shows "0 \<le> double_round x"
proof (cases "x = 0")
  case False
  define e where "e = max (floor_log2 \<bar>x\<bar>) (- 1022)"
  have "0 \<le> x / 2 powi (e - 52)"
    using assms by simp
  then have "0 \<le> round_half_even (x / 2 powi (e - 52))"
    using round_half_even_ge [of 0] by simp
  then have "0 \<le> (of_int (round_half_even (x / 2 powi (e - 52))) :: rat) * 2 powi (e - 52)"
    by simp
  then show ?thesis
    using False by (simp add: double_round_def Let_def e_def)
qed simp

text \<open>Rounding does not cross a power of two.\<close>

lemma double_round_le_power:
  assumes "0 \<le> x" and "x \<le> 2 powi k" and "- 1022 \<le> k"
  shows "double_round x \<le> 2 powi k"
proof (cases "x = 0")
  case False
  with assms have x: "0 < x"
    by simp
  define e where "e = max (floor_log2 \<bar>x\<bar>) (- 1022)"
  have dr: "double_round x = of_int (round_half_even (x / 2 powi (e - 52))) * 2 powi (e - 52)"
    using False by (simp add: double_round_def Let_def e_def)
  show ?thesis
  proof (cases "e \<le> k")
    case True
    have "x / 2 powi (e - 52) \<le> 2 powi k / 2 powi (e - 52)"
      using assms(2) by (simp add: divide_right_mono)
    also have "\<dots> = 2 powi (k - e + 52)"
      by (simp add: power_int_diff [symmetric] algebra_simps)
    also have "\<dots> = 2 ^ nat (k - e + 52)"
      using True by (simp add: power_int_nonneg_exp)
    also have "\<dots> = of_int (2 ^ nat (k - e + 52))"
      by simp
    finally have "round_half_even (x / 2 powi (e - 52)) \<le> 2 ^ nat (k - e + 52)"
      by (rule round_half_even_le)
    then have "(of_int (round_half_even (x / 2 powi (e - 52))) :: rat) \<le> of_int (2 ^ nat (k - e + 52))"
      by (simp only: of_int_le_iff)
    then have "(of_int (round_half_even (x / 2 powi (e - 52))) :: rat) \<le> 2 powi (k - e + 52)"
      using True by (simp add: power_int_nonneg_exp)
    then have "double_round x \<le> 2 powi (k - e + 52) * 2 powi (e - 52)"
      unfolding dr by (intro mult_right_mono) auto
    also have "\<dots> = 2 powi k"
      by (simp add: power_int_add [symmetric])
    finally show ?thesis .
  next
    case False
    then have "k < floor_log2 \<bar>x\<bar>"
      using assms(3) by (simp add: e_def max_def split: if_splits)
    then have "(2::rat) powi (k + 1) \<le> 2 powi floor_log2 \<bar>x\<bar>"
      by (intro power_int_increasing) auto
    also have "\<dots> \<le> \<bar>x\<bar>"
      using x by (intro floor_log2_bounds) simp
    finally have "2 powi (k + 1) \<le> x"
      using x by simp
    moreover have "(2::rat) powi k < 2 powi (k + 1)"
      by (intro power_int_strict_increasing) auto
    ultimately show ?thesis
      using assms(2) by simp
  qed
qed simp

lemma double_round_ge_power:
  assumes "2 powi k \<le> x" and "- 1022 \<le> k"
  shows "2 powi k \<le> double_round x"
proof -
  have x: "0 < x"
    using assms(1) zero_less_power_int [of "2::rat" k, OF zero_less_numeral] by linarith
  define e where "e = floor_log2 \<bar>x\<bar>"
  have ke: "k \<le> e"
    unfolding e_def using assms(1) x by (intro floor_log2_ge) simp
  then have e: "max (floor_log2 \<bar>x\<bar>) (- 1022) = e"
    using assms(2) by (simp add: e_def)
  have dr: "double_round x = of_int (round_half_even (x / 2 powi (e - 52))) * 2 powi (e - 52)"
    using x e by (simp add: double_round_def Let_def)
  have "(of_int (2 ^ nat (k - e + 52 + (e - k))) :: rat) = 2 powi 52"
    by (simp add: power_int_nonneg_exp)
  have "2 powi e \<le> x"
    unfolding e_def using x floor_log2_bounds(1) [of "\<bar>x\<bar>"] by simp
  then have "2 powi e / 2 powi (e - 52) \<le> x / 2 powi (e - 52)"
    by (simp add: divide_right_mono)
  moreover have "(2::rat) powi e / 2 powi (e - 52) = of_int (2 ^ 52)"
    by (simp add: power_int_diff [symmetric])
  ultimately have "of_int (2 ^ 52) \<le> x / 2 powi (e - 52)"
    by simp
  then have "2 ^ 52 \<le> round_half_even (x / 2 powi (e - 52))"
    by (rule round_half_even_ge)
  then have "(of_int (2 ^ 52) :: rat) \<le> of_int (round_half_even (x / 2 powi (e - 52)))"
    by (simp only: of_int_le_iff)
  then have "of_int (2 ^ 52) * 2 powi (e - 52) \<le> double_round x"
    unfolding dr by (intro mult_right_mono) auto
  moreover have "of_int (2 ^ 52) * 2 powi (e - 52) = (2::rat) powi e"
    using power_int_add [of "2::rat" 52 "e - 52"] by simp
  moreover have "(2::rat) powi k \<le> 2 powi e"
    using ke by (intro power_int_increasing) auto
  ultimately show ?thesis
    by simp
qed

section \<open>Values that are floats\<close>

text \<open>A value with at most 53 significant bits above \<open>2^(-1074)\<close> is its own rounding.\<close>

lemma double_round_exact_pos:
  assumes m: "0 < m" "m < 2 ^ 53" and e: "- 1074 \<le> e"
  shows "double_round (of_int m * 2 powi e) = of_int m * 2 powi e"
proof -
  define x :: rat where "x = of_int m * 2 powi e"
  define b where "b = bitlen m"
  have b1: "1 \<le> b"
    using bitlen_eq_zero_iff [of m] bitlen_nonneg [of m] m(1) unfolding b_def by linarith
  have b53: "b \<le> 53"
    using bitlen_le_iff_power [of m 53] m(2) by (simp add: b_def)
  from bitlen_bounds [OF m(1)] have lo: "2 ^ nat (b - 1) \<le> m" and hi: "m < 2 ^ nat b"
    by (simp_all add: b_def)
  have p: "(0::rat) < 2 powi e"
    by simp
  have xpos: "0 < x"
    unfolding x_def using m(1) p by (intro mult_pos_pos) simp_all
  have "(2::rat) powi (b - 1 + e) = 2 powi (b - 1) * 2 powi e"
    by (simp add: power_int_add)
  also have "(2::rat) powi (b - 1) = of_int (2 ^ nat (b - 1))"
    using b1 by (simp add: power_int_nonneg_exp)
  also have "of_int (2 ^ nat (b - 1)) * (2::rat) powi e \<le> of_int m * 2 powi e"
    using lo p by (intro mult_right_mono) (simp_all only: of_int_le_iff less_imp_le)
  finally have lo': "2 powi (b - 1 + e) \<le> x"
    by (simp add: x_def)
  have "(of_int m :: rat) < of_int (2 ^ nat b)"
    using hi by (simp only: of_int_less_iff)
  then have "x < of_int (2 ^ nat b) * 2 powi e"
    unfolding x_def using p by (intro mult_strict_right_mono)
  also have "(of_int (2 ^ nat b) :: rat) = 2 powi b"
    using b1 by (simp add: power_int_nonneg_exp)
  also have "(2::rat) powi b * 2 powi e = 2 powi (b - 1 + e + 1)"
    by (simp add: power_int_add [symmetric])
  finally have hi': "x < 2 powi (b - 1 + e + 1)" .
  have fl: "floor_log2 x = b - 1 + e"
    using lo' hi' by (rule floor_log2_eq)
  define E where "E = max (b - 1 + e) (- 1022)"
  have Ee: "0 \<le> e - (E - 52)"
    using b53 e by (simp add: E_def max_def)
  have "x / 2 powi (E - 52) = of_int m * (2 powi e / 2 powi (E - 52))"
    by (simp add: x_def)
  also have "(2::rat) powi e / 2 powi (E - 52) = 2 powi (e - (E - 52))"
    by (simp add: power_int_diff)
  also have "\<dots> = of_int (2 ^ nat (e - (E - 52)))"
    using Ee by (simp add: power_int_nonneg_exp)
  also have "of_int m * (of_int (2 ^ nat (e - (E - 52))) :: rat) = of_int (m * 2 ^ nat (e - (E - 52)))"
    by simp
  finally have q: "x / 2 powi (E - 52) = of_int (m * 2 ^ nat (e - (E - 52)))" .
  have "double_round x = of_int (round_half_even (x / 2 powi (E - 52))) * 2 powi (E - 52)"
    using xpos by (simp add: double_round_def Let_def fl E_def)
  also have "\<dots> = of_int (m * 2 ^ nat (e - (E - 52))) * 2 powi (E - 52)"
    by (simp only: q round_half_even_of_int)
  also have "\<dots> = x / 2 powi (E - 52) * 2 powi (E - 52)"
    by (simp only: q)
  also have "\<dots> = x"
    by simp
  finally show ?thesis
    by (simp add: x_def)
qed

lemma double_round_exact:
  assumes "\<bar>m\<bar> < 2 ^ 53" and "- 1074 \<le> e"
  shows "double_round (of_int m * 2 powi e) = of_int m * 2 powi e"
proof -
  consider "m = 0" | "0 < m" | "m < 0"
    by linarith
  then show ?thesis
  proof cases
    case 1
    then show ?thesis
      by simp
  next
    case 2
    with assms show ?thesis
      by (intro double_round_exact_pos) simp_all
  next
    case 3
    with assms have "double_round (of_int (- m) * 2 powi e) = of_int (- m) * 2 powi e"
      by (intro double_round_exact_pos) simp_all
    then have "double_round (- (of_int m * 2 powi e)) = - (of_int m * 2 powi e)"
      by simp
    then show ?thesis
      by (simp only: double_round_minus neg_equal_iff_equal)
  qed
qed

lemma double_round_of_int: "\<bar>m\<bar> < 2 ^ 53 \<Longrightarrow> double_round (of_int m) = of_int m"
  using double_round_exact [of m 0] by simp

text \<open>A value of the form \<open>m / 2^k\<close>.\<close>

lemma double_round_dyadic:
  assumes "x * 2 ^ k = of_int m" and "\<bar>m\<bar> < 2 ^ 53" and "k \<le> 1074"
  shows "double_round x = x"
proof -
  have "x = of_int m * 2 powi (- int k)"
    using assms(1) by (simp add: power_int_minus field_simps)
  moreover have "double_round (of_int m * 2 powi (- int k)) = of_int m * 2 powi (- int k)"
    using assms(2,3) by (intro double_round_exact) simp_all
  ultimately show ?thesis
    by simp
qed

section \<open>Floats in range\<close>

lemma double_round_le_pow:
  assumes "0 \<le> x" and "x \<le> 2 ^ k"
  shows "double_round x \<le> 2 ^ k"
  using double_round_le_power [of x "int k"] assms by simp

lemma to_double_bounded:
  assumes "0 \<le> x" and "x \<le> 2 ^ k" and "k \<le> 1023"
  shows "to_double x = Fin (double_round x)"
proof -
  have "double_round x \<le> 2 ^ k"
    using assms(1,2) by (rule double_round_le_pow)
  also have "(2::rat) ^ k \<le> 2 ^ 1023"
    using assms(3) by (intro power_increasing) simp_all
  also have "(2::rat) ^ 1023 < 2 ^ 1024"
    by (intro power_strict_increasing) simp_all
  finally have hi: "double_round x < 2 ^ 1024" .
  have "- (2 ^ 1024) < (0::rat)"
    by simp
  also have "0 \<le> double_round x"
    using assms(1) by (rule double_round_nonneg)
  finally have lo: "- (2 ^ 1024) < double_round x" .
  from hi lo show ?thesis
    unfolding to_double_def Let_def by (simp only: not_le [symmetric] if_False)
qed

lemma to_double_exact:
  assumes "x * 2 ^ k = of_int m" and "\<bar>m\<bar> < 2 ^ 53" and "k \<le> 1074"
  shows "to_double x = Fin x"
proof -
  have dr: "double_round x = x"
    using assms by (rule double_round_dyadic)
  have "\<bar>x * 2 ^ k\<bar> = \<bar>of_int m :: rat\<bar>"
    using assms(1) by (rule arg_cong)
  then have "\<bar>x\<bar> * 2 ^ k = \<bar>of_int m :: rat\<bar>"
    by (simp add: abs_mult)
  moreover have "\<bar>x\<bar> * 1 \<le> \<bar>x\<bar> * 2 ^ k"
    by (intro mult_left_mono) simp_all
  moreover have "\<bar>of_int m :: rat\<bar> < of_int (2 ^ 53)"
    using assms(2) by (simp only: of_int_abs [symmetric] of_int_less_iff)
  ultimately have "\<bar>x\<bar> < 2 ^ 53"
    by simp
  also have "(2::rat) ^ 53 < 2 ^ 1024"
    by (intro power_strict_increasing) simp_all
  finally have "x < 2 ^ 1024" "- (2 ^ 1024) < x"
    by (simp_all add: abs_less_iff)
  then show ?thesis
    unfolding to_double_def Let_def dr by (simp only: not_le [symmetric] if_False)
qed

lemma to_double_PosInf:
  assumes "2 ^ 1024 \<le> x"
  shows "to_double x = PosInf"
proof -
  have "2 powi 1024 \<le> double_round x"
    using assms by (intro double_round_ge_power) simp_all
  then show ?thesis
    by (simp add: to_double_def Let_def)
qed

lemma truediv_bounded:
  assumes "0 \<le> a" and "0 < b" and "a \<le> 2 ^ k" and "k \<le> 1023"
  shows "truediv a b = Inr (double_round (of_int a / of_int b))"
proof -
  have b1: "(1::rat) \<le> of_int b"
    using assms(2) by simp
  have a0: "(0::rat) \<le> of_int a"
    using assms(1) by simp
  have "(of_int a :: rat) / of_int b \<le> of_int a / 1"
    using b1 a0 by (intro divide_left_mono) simp_all
  also have "(of_int a :: rat) \<le> of_int (2 ^ k)"
    using assms(3) by (simp only: of_int_le_iff)
  finally have "(of_int a :: rat) / of_int b \<le> 2 ^ k"
    by simp
  moreover have "(0::rat) \<le> of_int a / of_int b"
    using assms(1,2) by simp
  ultimately have "to_double (of_int a / of_int b) = Fin (double_round (of_int a / of_int b))"
    using assms(4) by (intro to_double_bounded)
  then show ?thesis
    using assms(2) by (simp add: truediv_def)
qed

lemma truediv_exact:
  assumes "b \<noteq> 0" and "of_int a / of_int b * 2 ^ k = (of_int m :: rat)"
    and "\<bar>m\<bar> < 2 ^ 53" and "k \<le> 1074"
  shows "truediv a b = Inr (of_int a / of_int b)"
  using assms(1) to_double_exact [OF assms(2-4)] by (simp add: truediv_def)

lemma truediv_overflow:
  assumes "b \<noteq> 0" and "2 ^ 1024 \<le> (of_int a / of_int b :: rat)"
  shows "truediv a b = Inl OverflowError"
  using assms(1) to_double_PosInf [OF assms(2)] by (simp add: truediv_def)

lemma int_to_float_bounded:
  assumes "0 \<le> a" and "a \<le> 2 ^ k" and "k \<le> 1023"
  shows "int_to_float a = Inr (double_round (of_int a))"
proof -
  have "(of_int a :: rat) \<le> of_int (2 ^ k)"
    using assms(2) by (simp only: of_int_le_iff)
  then have "(of_int a :: rat) \<le> 2 ^ k"
    by simp
  moreover have "(0::rat) \<le> of_int a"
    using assms(1) by simp
  ultimately have "to_double (of_int a) = Fin (double_round (of_int a))"
    using assms(3) by (intro to_double_bounded)
  then show ?thesis
    by (simp add: int_to_float_def)
qed

lemma int_to_float_exact: "\<bar>a\<bar> < 2 ^ 53 \<Longrightarrow> int_to_float a = Inr (of_int a)"
  using to_double_exact [of "of_int a" 0 a] by (simp add: int_to_float_def)

section \<open>The ceiling of a rounded quotient\<close>


section \<open>Basic facts\<close>

lemma bindE_Inr [simp]: "bindE (Inr v) f = f v"
  by (simp add: bindE_def)

lemma bindE_Inl [simp]: "bindE (Inl e) f = Inl e"
  by (simp add: bindE_def)

lemma bindE_eq_Inr: "bindE m f = Inr r \<longleftrightarrow> (\<exists>v. m = Inr v \<and> f v = Inr r)"
  by (cases m) simp_all

lemma bindE_InrE:
  assumes "bindE m f = Inr r"
  obtains v where "m = Inr v" and "f v = Inr r"
  using assms by (cases m) simp_all

lemma floordiv_nonzero [simp]: "b \<noteq> 0 \<Longrightarrow> floordiv a b = Inr (a div b)"
  by (simp add: floordiv_def)

lemma floordiv_zero [simp]: "floordiv a 0 = Inl ZeroDivisionError"
  by (simp add: floordiv_def)

lemma floordiv_Inr: "floordiv a b = Inr q \<longleftrightarrow> b \<noteq> 0 \<and> q = a div b"
  by (auto simp: floordiv_def)

lemma truediv_zero [simp]: "truediv a 0 = Inl ZeroDivisionError"
  by (simp add: truediv_def)

lemma to_double_Fin: "to_double x = Fin q \<Longrightarrow> q = double_round x"
  by (simp add: to_double_def Let_def split: if_splits)

lemma truediv_Inr:
  assumes "truediv a b = Inr q"
  shows "b \<noteq> 0" and "q = double_round (of_int a / of_int b)"
proof -
  show "b \<noteq> 0"
    using assms by (auto simp: truediv_def)
  then have "to_double (of_int a / of_int b) = Fin q"
    using assms by (simp add: truediv_def split: pyfloat.splits)
  then show "q = double_round (of_int a / of_int b)"
    by (rule to_double_Fin)
qed

lemma int_to_float_Inr: "int_to_float a = Inr x \<Longrightarrow> x = double_round (of_int a)"
  by (simp add: int_to_float_def to_double_Fin split: pyfloat.splits)

lemma int_to_float_0 [simp]: "int_to_float 0 = Inr 0"
  using int_to_float_exact [of 0] by simp

lemma double_round_of_int_eq_0:
  assumes "double_round (of_int a) = 0"
  shows "a = 0"
proof (rule ccontr)
  assume "a \<noteq> 0"
  then consider "1 \<le> a" | "1 \<le> - a"
    by linarith
  then show False
  proof cases
    case 1
    then have "2 powi 0 \<le> (of_int a :: rat)"
      by simp
    then have "2 powi 0 \<le> double_round (of_int a)"
      by (rule double_round_ge_power) simp
    with assms show False
      by simp
  next
    case 2
    then have "(of_int 1 :: rat) \<le> of_int (- a)"
      by (simp only: of_int_le_iff)
    then have "2 powi 0 \<le> (of_int (- a) :: rat)"
      by simp
    then have "2 powi 0 \<le> double_round (of_int (- a))"
      by (rule double_round_ge_power) simp
    then have "1 \<le> - double_round (of_int a)"
      by (simp add: double_round_minus)
    with assms show False
      by simp
  qed
qed

lemma scenario_hw_simps:
  "dram_size scenario_hw = 33554432" "central_sram_size scenario_hw = 524288"
  "cgra_sram_size scenario_hw = 32768" "dma_transfer_rate scenario_hw = 16"
  by (simp_all add: scenario_hw_def HardwareConfig_init_def get_default_def)

lemma small_buffer_hw_simps:
  "dram_size small_buffer_hw = 33554432" "central_sram_size small_buffer_hw = 524288"
  "cgra_sram_size small_buffer_hw = 1024" "dma_transfer_rate small_buffer_hw = 16"
  by (simp_all add: small_buffer_hw_def scenario_hw_def HardwareConfig_init_def get_default_def)

section \<open>What a returned result says\<close>

lemma ceil_to_int_Inr: "ceil_to_int x = Inr c \<Longrightarrow> \<exists>q. x = Fin q \<and> c = \<lceil>q\<rceil>"
  by (cases x) (simp_all add: ceil_to_int_def)

lemma transfer_latency_int_Inr:
  assumes "calculate_transfer_latency hw (IntBytes s) = Inr c"
  shows "dma_transfer_rate hw \<noteq> 0"
    and "c = \<lceil>double_round (of_int s / of_int (dma_transfer_rate hw))\<rceil>"
proof -
  from assms obtain q where q: "truediv s (dma_transfer_rate hw) = Inr q" and c: "c = \<lceil>q\<rceil>"
    unfolding calculate_transfer_latency_def
    by (auto simp: ceil_to_int_def elim!: bindE_InrE)
  from truediv_Inr [OF q] c
  show "dma_transfer_rate hw \<noteq> 0"
    and "c = \<lceil>double_round (of_int s / of_int (dma_transfer_rate hw))\<rceil>"
    by simp_all
qed

lemma transfer_latency_float_Inr:
  assumes "calculate_transfer_latency hw (FloatBytes x) = Inr c"
  shows "dma_transfer_rate hw \<noteq> 0"
    and "\<exists>y. x = Fin y
          \<and> c = \<lceil>double_round (y / double_round (of_int (dma_transfer_rate hw)))\<rceil>"
proof -
  from assms obtain b where b: "int_to_float (dma_transfer_rate hw) = Inr b"
    and r: "(if b = 0 then Inl ZeroDivisionError else ceil_to_int (float_div x b)) = Inr c"
    unfolding calculate_transfer_latency_def by (auto elim!: bindE_InrE)
  from r have b0: "b \<noteq> 0" and c: "ceil_to_int (float_div x b) = Inr c"
    by (simp_all split: if_splits)
  from b b0 show "dma_transfer_rate hw \<noteq> 0"
    by auto
  from ceil_to_int_Inr [OF c] obtain q where q: "float_div x b = Fin q" and cq: "c = \<lceil>q\<rceil>"
    by blast
  from q obtain y where y: "x = Fin y" and t: "to_double (y / b) = Fin q"
    by (cases x) (simp_all add: float_div_def split: if_splits)
  from to_double_Fin [OF t] int_to_float_Inr [OF b] cq y
  show "\<exists>y. x = Fin y
          \<and> c = \<lceil>double_round (y / double_round (of_int (dma_transfer_rate hw)))\<rceil>"
    by simp
qed

lemma transfer_latency_rate:
  assumes "calculate_transfer_latency hw s = Inr c"
  shows "dma_transfer_rate hw \<noteq> 0"
  using assms transfer_latency_int_Inr(1) transfer_latency_float_Inr(1) by (cases s) blast+

text \<open>The transfer of the byte count multiplied by the value of \<open>max(1, q)\<close>.\<close>

lemma scaled_transfer_Inr:
  assumes s: "times_reloads t (max_int_float 1 q) = Inr s"
    and c: "calculate_transfer_latency hw s = Inr c"
  shows "c = (if 1 < q
              then \<lceil>double_round (double_round (double_round (of_int t) * q)
                      / double_round (of_int (dma_transfer_rate hw)))\<rceil>
              else \<lceil>double_round (of_int t / of_int (dma_transfer_rate hw))\<rceil>)"
proof (cases "1 < q")
  case True
  with s obtain a where a: "int_to_float t = Inr a" and sv: "s = FloatBytes (float_mul a q)"
    by (auto simp: times_reloads_def max_int_float_def elim!: bindE_InrE)
  from transfer_latency_float_Inr(2) [OF c [unfolded sv]] obtain y
    where y: "float_mul a q = Fin y"
      and cv: "c = \<lceil>double_round (y / double_round (of_int (dma_transfer_rate hw)))\<rceil>"
    by blast
  from y have "y = double_round (a * q)"
    unfolding float_mul_def by (rule to_double_Fin)
  with cv int_to_float_Inr [OF a] True show ?thesis
    by simp
next
  case False
  with s have "s = IntBytes t"
    by (auto simp: times_reloads_def max_int_float_def)
  with transfer_latency_int_Inr(2) [of hw t c] c False show ?thesis
    by simp
qed

lemma gemm_latencies_Inr:
  assumes "gemm_calculate_latencies hw n mr gc = Inr l"
  shows "\<exists>g. gemm_calculate_memory_access_latency hw n mr gc = Inr g
      \<and> dram_to_central l = dram_to_central g \<and> central_to_cgra l = central_to_cgra g
      \<and> truediv (2 * n * n * n) 4 = Inr (computation l)"
  using assms by (auto simp: gemm_calculate_latencies_def bindE_eq_Inr Let_def)

lemma gemm_point_Inr:
  assumes "gemm_analyze_point hw gc n = Inr r"
  shows "memory r = gemm_calculate_memory_requirements n gc
     \<and> gemm_calculate_latencies hw n (memory r) gc = Inr (latencies r)
     \<and> calculate_memory_utilization hw (GEMMMemReq.total (memory r)) = Inr (utilization r)
     \<and> (\<exists>a. int_to_float (dram_to_central (latencies r) + central_to_cgra (latencies r)) = Inr a
          \<and> total_latency r = float_add a (computation (latencies r)))
     \<and> dimension r = n"
  using assms by (auto simp: gemm_analyze_point_def bindE_eq_Inr Let_def)

lemma conv_latencies_Inr:
  assumes "conv_calculate_latencies hw n k mr cc = Inr l"
  shows "\<exists>t od. conv_memory_access_trace hw n k cc = Inr t \<and> conv_output_dim n k cc = Inr od
      \<and> dram_to_central l = dram_to_central t \<and> central_to_cgra l = central_to_cgra t
      \<and> computation l = 2 * k * k * num_channels cc * od * od * num_filters cc"
  using assms
  by (auto simp: conv_calculate_latencies_def conv_calculate_memory_access_latency_def
      bindE_eq_Inr Let_def)

lemma conv_point_Inr:
  assumes "conv_analyze_point hw cc n k = Inr r"
  shows "conv_calculate_memory_requirements n k cc = Inr (memory r)
     \<and> conv_calculate_latencies hw n k (memory r) cc = Inr (latencies r)
     \<and> calculate_memory_utilization hw (ConvMemReq.total (memory r)) = Inr (utilization r)
     \<and> total_latency r = dram_to_central (latencies r)
          + central_to_cgra (latencies r) + computation (latencies r)
     \<and> input_dimension r = n \<and> kernel_size r = k"
  using assms by (auto simp: conv_analyze_point_def bindE_eq_Inr Let_def)

lemma conv_output_dim_Inr:
  "conv_output_dim n k cc = Inr od \<longleftrightarrow>
     stride cc \<noteq> 0 \<and> od = (n + 2 * padding cc - k) div stride cc + 1"
  by (auto simp: conv_output_dim_def bindE_eq_Inr floordiv_Inr)

section \<open>The traffic computation, step by step\<close>

lemma gemm_access_Inr:
  assumes "gemm_calculate_memory_access_latency hw n mr gc = Inr g"
  shows "cgra_sram_size hw \<noteq> 0 \<and> dma_transfer_rate hw \<noteq> 0
     \<and> (matrix_a_load (debug_info g), matrix_b_load (debug_info g),
         matrix_c_load (debug_info g), matrix_c_store (debug_info g))
         = gemm_loads n (per_matrix mr) gc
     \<and> working_set (debug_info g) = gemm_working_set (per_matrix mr * 3) (per_matrix mr) gc
     \<and> (\<exists>q. truediv (working_set (debug_info g)) (cgra_sram_size hw) = Inr q
          \<and> reloads (debug_info g) = max_int_float 1 q)
     \<and> (\<exists>s. times_reloads (matrix_a_load (debug_info g) + matrix_b_load (debug_info g)
                  + matrix_c_load (debug_info g) + matrix_c_store (debug_info g))
               (reloads (debug_info g)) = Inr s
          \<and> calculate_transfer_latency hw s = Inr (central_to_cgra g))
     \<and> (if per_matrix mr * 3 \<le> central_sram_size hw then dram_to_central g = 0
         else calculate_transfer_latency hw
                (IntBytes (matrix_a_load (debug_info g) + matrix_b_load (debug_info g)
                  + matrix_c_load (debug_info g) + matrix_c_store (debug_info g)))
              = Inr (dram_to_central g))"
proof -
  obtain la lb lc ls where loads: "gemm_loads n (per_matrix mr) gc = (la, lb, lc, ls)"
    by (cases "gemm_loads n (per_matrix mr) gc") auto
  let ?ws = "gemm_working_set (per_matrix mr * 3) (per_matrix mr) gc"
  let ?sum = "la + lb + lc + ls"
  have "bindE (if per_matrix mr * 3 \<le> central_sram_size hw then Inr 0
               else calculate_transfer_latency hw (IntBytes ?sum)) (\<lambda>d.
        bindE (truediv ?ws (cgra_sram_size hw)) (\<lambda>q.
        bindE (times_reloads ?sum (max_int_float 1 q)) (\<lambda>s.
        bindE (calculate_transfer_latency hw s) (\<lambda>c.
          Inr \<lparr> dram_to_central = d, central_to_cgra = c,
                debug_info = \<lparr> working_set = ?ws, reloads = max_int_float 1 q,
                  matrix_a_load = la, matrix_b_load = lb,
                  matrix_c_load = lc, matrix_c_store = ls \<rparr> \<rparr>)))) = Inr g"
    using assms loads by (simp add: gemm_calculate_memory_access_latency_def Let_def)
  then obtain d q s c
    where d: "(if per_matrix mr * 3 \<le> central_sram_size hw then Inr 0
               else calculate_transfer_latency hw (IntBytes ?sum)) = Inr d"
      and q: "truediv ?ws (cgra_sram_size hw) = Inr q"
      and s: "times_reloads ?sum (max_int_float 1 q) = Inr s"
      and c: "calculate_transfer_latency hw s = Inr c"
      and g: "g = \<lparr> dram_to_central = d, central_to_cgra = c,
                debug_info = \<lparr> working_set = ?ws, reloads = max_int_float 1 q,
                  matrix_a_load = la, matrix_b_load = lb,
                  matrix_c_load = lc, matrix_c_store = ls \<rparr> \<rparr>"
    by (elim bindE_InrE) simp
  from q have cg: "cgra_sram_size hw \<noteq> 0"
    by (rule truediv_Inr)
  from c have dm: "dma_transfer_rate hw \<noteq> 0"
    by (rule transfer_latency_rate)
  have dv: "if per_matrix mr * 3 \<le> central_sram_size hw then d = 0
            else calculate_transfer_latency hw (IntBytes ?sum) = Inr d"
    using d by (simp split: if_splits)
  show ?thesis
    unfolding g using cg dm q s c dv loads by simp
qed

lemma conv_trace_Inr:
  assumes "conv_memory_access_trace hw n k cc = Inr t"
  shows "\<exists>od. conv_output_dim n k cc = Inr od
     \<and> cgra_sram_size hw \<noteq> 0 \<and> dma_transfer_rate hw \<noteq> 0
     \<and> conv_loads n k (n * n * num_channels cc * data_type_size cc)
          (k * k * num_channels cc * num_filters cc * data_type_size cc)
          (od * od * num_filters cc * data_type_size cc) cc
         = Inr (input_load (locals t), kernel_load (locals t), output_load (locals t))
     \<and> total_transfer (locals t)
         = input_load (locals t) + kernel_load (locals t) + output_load (locals t)
     \<and> working_set (locals t)
         = conv_working_set (n * n * num_channels cc * data_type_size cc
             + k * k * num_channels cc * num_filters cc * data_type_size cc
             + od * od * num_filters cc * data_type_size cc) cc
     \<and> (\<exists>q. truediv (working_set (locals t)) (cgra_sram_size hw) = Inr q
          \<and> reloads (locals t) = max_int_float 1 q)
     \<and> (\<exists>s. times_reloads (total_transfer (locals t)) (reloads (locals t)) = Inr s
          \<and> calculate_transfer_latency hw s = Inr (central_to_cgra t))
     \<and> (if n * n * num_channels cc * data_type_size cc
             + k * k * num_channels cc * num_filters cc * data_type_size cc
             + od * od * num_filters cc * data_type_size cc \<le> central_sram_size hw
         then dram_to_central t = 0
         else calculate_transfer_latency hw (IntBytes (total_transfer (locals t)))
              = Inr (dram_to_central t))"
proof -
  let ?inp = "n * n * num_channels cc * data_type_size cc"
  let ?ker = "k * k * num_channels cc * num_filters cc * data_type_size cc"
  let ?out = "\<lambda>od. od * od * num_filters cc * data_type_size cc"
  from assms obtain od
    where od: "conv_output_dim n k cc = Inr od"
      and r1: "bindE (conv_loads n k ?inp ?ker (?out od) cc) (\<lambda>(il, kl, ol).
        bindE (if ?inp + ?ker + ?out od \<le> central_sram_size hw then Inr 0
               else calculate_transfer_latency hw (IntBytes (il + kl + ol))) (\<lambda>d.
        bindE (truediv (conv_working_set (?inp + ?ker + ?out od) cc)
                 (cgra_sram_size hw)) (\<lambda>q.
        bindE (times_reloads (il + kl + ol) (max_int_float 1 q)) (\<lambda>s.
        bindE (calculate_transfer_latency hw s) (\<lambda>c.
          Inr \<lparr> dram_to_central = d, central_to_cgra = c,
                locals = \<lparr> working_set = conv_working_set (?inp + ?ker + ?out od) cc,
                  reloads = max_int_float 1 q, input_load = il, kernel_load = kl,
                  output_load = ol, total_transfer = il + kl + ol \<rparr> \<rparr>))))) = Inr t"
    unfolding conv_memory_access_trace_def Let_def by (rule bindE_InrE)
  let ?ws = "conv_working_set (?inp + ?ker + ?out od) cc"
  from r1 obtain il kl ol
    where loads: "conv_loads n k ?inp ?ker (?out od) cc = Inr (il, kl, ol)"
      and r2: "bindE (if ?inp + ?ker + ?out od \<le> central_sram_size hw then Inr 0
               else calculate_transfer_latency hw (IntBytes (il + kl + ol))) (\<lambda>d.
        bindE (truediv ?ws (cgra_sram_size hw)) (\<lambda>q.
        bindE (times_reloads (il + kl + ol) (max_int_float 1 q)) (\<lambda>s.
        bindE (calculate_transfer_latency hw s) (\<lambda>c.
          Inr \<lparr> dram_to_central = d, central_to_cgra = c,
                locals = \<lparr> working_set = ?ws,
                  reloads = max_int_float 1 q, input_load = il, kernel_load = kl,
                  output_load = ol, total_transfer = il + kl + ol \<rparr> \<rparr>)))) = Inr t"
    by (elim bindE_InrE) (auto split: prod.splits)
  let ?sum = "il + kl + ol"
  from r2 obtain d q s c
    where d: "(if ?inp + ?ker + ?out od \<le> central_sram_size hw then Inr 0
               else calculate_transfer_latency hw (IntBytes ?sum)) = Inr d"
      and q: "truediv ?ws (cgra_sram_size hw) = Inr q"
      and s: "times_reloads ?sum (max_int_float 1 q) = Inr s"
      and c: "calculate_transfer_latency hw s = Inr c"
      and t: "t = \<lparr> dram_to_central = d, central_to_cgra = c,
                locals = \<lparr> working_set = ?ws,
                  reloads = max_int_float 1 q, input_load = il, kernel_load = kl,
                  output_load = ol, total_transfer = ?sum \<rparr> \<rparr>"
    by (elim bindE_InrE) simp
  from q have cg: "cgra_sram_size hw \<noteq> 0"
    by (rule truediv_Inr)
  from c have dm: "dma_transfer_rate hw \<noteq> 0"
    by (rule transfer_latency_rate)
  have dv: "if ?inp + ?ker + ?out od \<le> central_sram_size hw then d = 0
            else calculate_transfer_latency hw (IntBytes ?sum) = Inr d"
    using d by (simp split: if_splits)
  show ?thesis
    unfolding t using od cg dm q s c dv loads by simp
qed

lemma conv_requirements_Inr:
  assumes "conv_calculate_memory_requirements n k cc = Inr mr"
  shows "\<exists>od. conv_output_dim n k cc = Inr od
     \<and> input mr = n * n * num_channels cc * data_type_size cc
     \<and> kernel mr = k * k * num_channels cc * num_filters cc * data_type_size cc
     \<and> output' mr = od * od * num_filters cc * data_type_size cc
     \<and> output_dims (dimensions mr) = (od, od, num_filters cc)
     \<and> ConvMemReq.total mr = input mr + kernel mr + output' mr"
proof -
  from assms obtain od where od: "conv_output_dim n k cc = Inr od"
    and mr: "mr = \<lparr> input = n * n * num_channels cc * data_type_size cc,
       kernel = k * k * num_channels cc * num_filters cc * data_type_size cc,
       output' = od * od * num_filters cc * data_type_size cc,
       total = n * n * num_channels cc * data_type_size cc
         + k * k * num_channels cc * num_filters cc * data_type_size cc
         + od * od * num_filters cc * data_type_size cc,
       dimensions = \<lparr> input_dims = (n, n, num_channels cc),
         kernel_dims = (k, k, num_channels cc, num_filters cc),
         output_dims = (od, od, num_filters cc) \<rparr> \<rparr>"
    unfolding conv_calculate_memory_requirements_def Let_def
    by (elim bindE_InrE) simp
  show ?thesis
    unfolding mr using od by simp
qed

section \<open>Tile counts and transfer volumes of Conv\<close>

lemma tiles_ceiling:
  assumes "0 < t"
  shows "(n + t - 1) div t = \<lceil>(of_int n :: rat) / of_int t\<rceil>"
proof -
  define z where "z = (n + t - 1) div t"
  define m where "m = (n + t - 1) mod t"
  have eq: "z * t + m = n + t - 1"
    by (simp add: z_def m_def)
  have m: "0 \<le> m" "m < t"
    using assms by (simp_all add: m_def)
  have up: "n \<le> z * t"
    using eq m by linarith
  have "(z - 1) * t = z * t - t"
    by (simp add: algebra_simps)
  with eq m have lo: "(z - 1) * t < n"
    by linarith
  have tp: "(0::rat) < of_int t"
    using assms by simp
  have "(of_int n :: rat) \<le> of_int (z * t)"
    using up by (simp only: of_int_le_iff)
  then have a: "(of_int n :: rat) / of_int t \<le> of_int z"
    using tp by (simp add: pos_divide_le_eq)
  have "(of_int ((z - 1) * t) :: rat) < of_int n"
    using lo by (simp only: of_int_less_iff)
  then have b: "of_int z - 1 < (of_int n :: rat) / of_int t"
    using tp by (simp add: pos_less_divide_eq)
  from a b have "\<lceil>(of_int n :: rat) / of_int t\<rceil> = z"
    by (intro ceiling_unique) simp_all
  then show ?thesis
    by (simp add: z_def)
qed

lemma tiles_positive: "0 < n \<Longrightarrow> 0 < t \<Longrightarrow> 0 < (n + t - 1) div (t::int)"
  by (simp add: pos_imp_zdiv_pos_iff)

lemma conv_loads_tiled_Inr:
  assumes "tiling_size cc = Some (th, tw)"
    and "conv_loads n k inp ker out cc = Inr (il, kl, ol)"
  shows "th \<noteq> 0 \<and> tw \<noteq> 0 \<and> ((n + th - 1) div th) * ((n + tw - 1) div tw) \<noteq> 0
     \<and> il = inp div (((n + th - 1) div th) * ((n + tw - 1) div tw))
              * ((n + th - 1) div th) * ((n + tw - 1) div tw) * (1 + (k - 1))
     \<and> kl = ker \<and> ol = out"
proof -
  from assms obtain nh nw e
    where nh: "floordiv (n + th - 1) th = Inr nh"
      and nw: "floordiv (n + tw - 1) tw = Inr nw"
      and e: "floordiv inp (nh * nw) = Inr e"
      and r: "il = e * nh * nw * (1 + (k - 1))" "kl = ker" "ol = out"
    unfolding conv_loads_def by (simp add: Let_def) (elim bindE_InrE, simp)
  from nh nw e r show ?thesis
    by (simp add: floordiv_Inr)
qed

lemma conv_loads_zero_tile:
  assumes "tiling_size cc = Some (th, tw)" and "th = 0 \<or> tw = 0"
  shows "conv_loads n k inp ker out cc = Inl ZeroDivisionError"
proof (cases "th = 0")
  case True
  with assms(1) show ?thesis by (simp add: conv_loads_def)
next
  case False
  with assms show ?thesis by (simp add: conv_loads_def)
qed

lemma conv_loads_untiled:
  assumes "tiling_size cc = None"
  shows "conv_loads n k inp ker out cc = Inr (inp * k * k, ker, out * 2)"
  using assms by (simp add: conv_loads_def)

lemma conv_loads_tiled_returns:
  assumes "tiling_size cc = Some (th, tw)" and "0 < th" and "0 < tw" and "0 < n"
  shows "\<exists>l. conv_loads n k inp ker out cc = Inr l"
proof -
  have "(n + th - 1) div th \<noteq> 0" and "(n + tw - 1) div tw \<noteq> 0"
    using assms tiles_positive [of n th] tiles_positive [of n tw] by simp_all
  with assms show ?thesis
    by (simp add: conv_loads_def)
qed

section \<open>Evaluation of float operations\<close>

lemma floor_rat_numeral:
  "\<lfloor>(numeral a :: rat) / numeral b\<rfloor> = numeral a div numeral b"
  using floor_divide_of_int_eq [of "numeral a" "numeral b", where ?'a = rat] by simp

lemma ceiling_rat_numeral:
  "\<lceil>(numeral a :: rat) / numeral b\<rceil> = - (- numeral a div numeral b)"
  using ceiling_divide_eq_div [of "numeral a" "numeral b", where ?'a = rat] by simp

lemma truediv_eval:
  assumes "b \<noteq> 0" and "b dvd a * 2 ^ k" and "\<bar>a * 2 ^ k div b\<bar> < 2 ^ 53" and "k \<le> 1074"
  shows "truediv a b = Inr (of_int a / of_int b)"
proof -
  from assms(2) obtain c where c: "a * 2 ^ k = b * c"
    by (auto simp: dvd_def)
  then have m: "a * 2 ^ k div b = c"
    using assms(1) by simp
  have "(of_int (a * 2 ^ k) :: rat) = of_int (b * c)"
    by (simp only: c)
  then have "(of_int a :: rat) * 2 ^ k = of_int b * of_int c"
    by simp
  then have "of_int a / of_int b * 2 ^ k = (of_int c :: rat)"
    using assms(1) by (simp add: field_simps)
  with assms(3) m show ?thesis
    using assms(1,4) by (intro truediv_exact [where m = c and k = k]) simp_all
qed

lemma to_double_eval:
  assumes "of_int \<lfloor>x * 2 ^ k\<rfloor> = x * 2 ^ k" and "\<bar>\<lfloor>x * 2 ^ k\<rfloor>\<bar> < 2 ^ 53" and "k \<le> 1074"
  shows "to_double x = Fin x"
  using to_double_exact [of x k "\<lfloor>x * 2 ^ k\<rfloor>"] assms by simp

lemma to_double_at:
  assumes "2 powi e \<le> \<bar>x\<bar>" and "\<bar>x\<bar> < 2 powi (e + 1)" and "- 1022 \<le> e" and "e \<le> 1022"
  shows "to_double x = Fin (of_int (round_half_even (x / 2 powi (e - 52))) * 2 powi (e - 52))"
proof -
  have dr: "double_round x = of_int (round_half_even (x / 2 powi (e - 52))) * 2 powi (e - 52)"
    using assms(1-3) by (rule double_round_at)
  have le: "\<bar>double_round x\<bar> \<le> 2 powi (e + 1)"
  proof (cases "0 \<le> x")
    case True
    with assms(2,3) have "double_round x \<le> 2 powi (e + 1)"
      by (intro double_round_le_power) simp_all
    with double_round_nonneg [OF True] show ?thesis
      by simp
  next
    case False
    then have n: "0 \<le> - x"
      by simp
    with assms(2,3) have "double_round (- x) \<le> 2 powi (e + 1)"
      by (intro double_round_le_power) simp_all
    with double_round_nonneg [OF n] show ?thesis
      by (simp add: double_round_minus)
  qed
  also have "(2::rat) powi (e + 1) \<le> 2 powi 1023"
    using assms(4) by (intro power_int_increasing) simp_all
  also have "(2::rat) powi 1023 < 2 powi 1024"
    by (intro power_int_strict_increasing) simp_all
  finally have "\<bar>double_round x\<bar> < 2 ^ 1024"
    by simp
  then have "double_round x < 2 ^ 1024" "- (2 ^ 1024) < double_round x"
    by (simp_all only: abs_less_iff minus_less_iff [of "double_round x"])
  then have "to_double x = Fin (double_round x)"
    unfolding to_double_def Let_def by (simp only: not_le [symmetric] if_False)
  then show ?thesis
    by (simp only: dr)
qed

lemmas float_eval = times_reloads_def max_int_float_def ceil_to_int_def float_add_def
  float_mul_def float_div_def int_to_float_exact truediv_eval [where k = 25]
  to_double_eval [where k = 25] floor_rat_numeral ceiling_rat_numeral

lemmas gemm_defs = gemm_analyze_point_def gemm_calculate_memory_requirements_def
  gemm_calculate_latencies_def gemm_calculate_memory_access_latency_def gemm_loads_def
  gemm_tiling_def gemm_working_set_def calculate_transfer_latency_def
  calculate_memory_utilization_def Let_def

lemmas conv_defs = conv_analyze_point_def conv_calculate_memory_requirements_def
  conv_calculate_latencies_def conv_calculate_memory_access_latency_def
  conv_memory_access_trace_def conv_output_dim_def conv_loads_def conv_working_set_def
  calculate_transfer_latency_def calculate_memory_utilization_def Let_def

section \<open>Evaluation at reference inputs\<close>

lemma gemm_point_16:
  "gemm_analyze_point scenario_hw scenario_gemm 16 =
     Inr \<lparr> memory = \<lparr> per_matrix = 1024, total = 3072,
             breakdown = \<lparr> input_a = 1024, input_b = 1024, output' = 1024 \<rparr> \<rparr>,
           latencies = \<lparr> dram_to_central = 0, central_to_cgra = 256, computation = 2048 \<rparr>,
           utilization = \<lparr> cgra_sram = 3 / 32, central_sram = 3 / 512, dram = 3 / 32768 \<rparr>,
           total_latency = Fin 2304, dimension = 16 \<rparr>"
  by (simp add: gemm_defs scenario_gemm_def scenario_hw_simps float_eval)

lemma gemm_point_256:
  "gemm_analyze_point scenario_hw scenario_gemm 256 =
     Inr \<lparr> memory = \<lparr> per_matrix = 262144, total = 786432,
             breakdown = \<lparr> input_a = 262144, input_b = 262144, output' = 262144 \<rparr> \<rparr>,
           latencies = \<lparr> dram_to_central = 65536, central_to_cgra = 1572864,
             computation = 8388608 \<rparr>,
           utilization = \<lparr> cgra_sram = 1, central_sram = 1, dram = 3 / 128 \<rparr>,
           total_latency = Fin 10027008, dimension = 256 \<rparr>"
  by (simp add: gemm_defs scenario_gemm_def scenario_hw_simps float_eval)

lemma conv_point_16_3:
  "conv_analyze_point scenario_hw default_conv 16 3 =
     Inr \<lparr> memory = \<lparr> input = 1024, kernel = 36, output' = 784, total = 1844,
             dimensions = \<lparr> input_dims = (16, 16, 1), kernel_dims = (3, 3, 1, 1),
               output_dims = (14, 14, 1) \<rparr> \<rparr>,
           latencies = \<lparr> dram_to_central = 0, central_to_cgra = 677, computation = 3528 \<rparr>,
           utilization = \<lparr> cgra_sram = 461 / 8192, central_sram = 461 / 131072,
             dram = 461 / 8388608 \<rparr>,
           total_latency = 4205, input_dimension = 16, kernel_size = 3 \<rparr>"
  by (simp add: conv_defs default_conv_def scenario_hw_simps float_eval)

lemma conv_point_2_5:
  "conv_analyze_point scenario_hw default_conv 2 5 =
     Inr \<lparr> memory = \<lparr> input = 16, kernel = 100, output' = 16, total = 132,
             dimensions = \<lparr> input_dims = (2, 2, 1), kernel_dims = (5, 5, 1, 1),
               output_dims = (- 2, - 2, 1) \<rparr> \<rparr>,
           latencies = \<lparr> dram_to_central = 0, central_to_cgra = 34, computation = 200 \<rparr>,
           utilization = \<lparr> cgra_sram = 33 / 8192, central_sram = 33 / 131072,
             dram = 33 / 8388608 \<rparr>,
           total_latency = 234, input_dimension = 2, kernel_size = 5 \<rparr>"
  by (simp add: conv_defs default_conv_def scenario_hw_simps float_eval)

text \<open>A point with padding 1 and stride 2: the output side is \<open>(16 + 2 - 3) div 2 + 1 = 8\<close>.\<close>

lemma conv_point_strided:
  "conv_analyze_point scenario_hw (default_conv \<lparr> padding := 1, stride := 2 \<rparr>) 16 3 =
     Inr \<lparr> memory = \<lparr> input = 1024, kernel = 36, output' = 256, total = 1316,
             dimensions = \<lparr> input_dims = (16, 16, 1), kernel_dims = (3, 3, 1, 1),
               output_dims = (8, 8, 1) \<rparr> \<rparr>,
           latencies = \<lparr> dram_to_central = 0, central_to_cgra = 611, computation = 1152 \<rparr>,
           utilization = \<lparr> cgra_sram = 329 / 8192, central_sram = 329 / 131072,
             dram = 329 / 8388608 \<rparr>,
           total_latency = 1763, input_dimension = 16, kernel_size = 3 \<rparr>"
  by (simp add: conv_defs default_conv_def scenario_hw_simps float_eval)

lemma gemm_access_16:
  "gemm_calculate_memory_access_latency scenario_hw 16
     (gemm_calculate_memory_requirements 16 scenario_gemm) scenario_gemm =
   Inr \<lparr> dram_to_central = 0, central_to_cgra = 256,
         debug_info = \<lparr> working_set = 3072, reloads = PyInt 1, matrix_a_load = 1024,
           matrix_b_load = 1024, matrix_c_load = 1024, matrix_c_store = 1024 \<rparr> \<rparr>"
  by (simp add: gemm_defs scenario_gemm_def scenario_hw_simps float_eval)

lemma gemm_access_zero_tile:
  "gemm_calculate_memory_access_latency scenario_hw 16
     (gemm_calculate_memory_requirements 16 scenario_gemm)
     (scenario_gemm \<lparr> GEMMConfig.tiling_size := Some 0 \<rparr>) =
   Inr \<lparr> dram_to_central = 0, central_to_cgra = 256,
         debug_info = \<lparr> working_set = 3072, reloads = PyInt 1, matrix_a_load = 1024,
           matrix_b_load = 1024, matrix_c_load = 1024, matrix_c_store = 1024 \<rparr> \<rparr>"
  by (simp add: gemm_defs scenario_gemm_def scenario_hw_simps float_eval)

lemma gemm_access_tiled_64:
  "gemm_calculate_memory_access_latency small_buffer_hw 64
     (gemm_calculate_memory_requirements 64 (scenario_gemm \<lparr> GEMMConfig.tiling_size := Some 16 \<rparr>))
     (scenario_gemm \<lparr> GEMMConfig.tiling_size := Some 16 \<rparr>) =
   Inr \<lparr> dram_to_central = 0, central_to_cgra = 12288,
         debug_info = \<lparr> working_set = 3072, reloads = PyFloat 3, matrix_a_load = 16384,
           matrix_b_load = 16384, matrix_c_load = 16384, matrix_c_store = 16384 \<rparr> \<rparr>"
  by (simp add: gemm_defs scenario_gemm_def small_buffer_hw_simps float_eval)

text \<open>
  A tiled GEMM on a local SRAM of 25 KiB: the quotient \<open>27648 / 25600\<close> is no float, the
  reload factor is the float next to it, and the product with the transfer total is rounded
  again.  The transfer takes 62209 cycles; the unrounded product \<open>995328\<close> would take 62208.
\<close>

lemma reload_factor_rounded:
  "truediv 27648 25600 = Inr (607985949695017 / 562949953421312)"
proof -
  have "to_double (of_int 27648 / of_int 25600)
      = Fin (of_int (round_half_even (of_int 27648 / of_int 25600 / 2 powi (0 - 52)))
          * 2 powi (0 - 52))"
    by (rule to_double_at) simp_all
  then show ?thesis
    by (simp add: truediv_def round_half_even_def Let_def floor_rat_numeral)
qed

lemma reload_product_rounded:
  "float_mul 921600 (607985949695017 / 562949953421312) = Fin (8549802417586177 / 8589934592)"
proof -
  have "to_double (921600 * (607985949695017 / 562949953421312))
      = Fin (of_int (round_half_even
               (921600 * (607985949695017 / 562949953421312) / 2 powi (19 - 52)))
          * 2 powi (19 - 52))"
    by (rule to_double_at) simp_all
  then show ?thesis
    by (simp add: float_mul_def round_half_even_def Let_def floor_rat_numeral)
qed

lemma gemm_access_rounded:
  "gemm_calculate_memory_access_latency (scenario_hw \<lparr> cgra_sram_size := 25600 \<rparr>) 224
     (gemm_calculate_memory_requirements 224
        (scenario_gemm \<lparr> GEMMConfig.tiling_size := Some 48 \<rparr>))
     (scenario_gemm \<lparr> GEMMConfig.tiling_size := Some 48 \<rparr>) =
   Inr \<lparr> dram_to_central = 57600, central_to_cgra = 62209,
         debug_info = \<lparr> working_set = 27648,
           reloads = PyFloat (607985949695017 / 562949953421312), matrix_a_load = 230400,
           matrix_b_load = 230400, matrix_c_load = 230400, matrix_c_store = 230400 \<rparr> \<rparr>"
proof -
  have "to_double (136796838681378825 / 137438953472) = Fin (8549802417586177 / 8589934592)"
    using reload_product_rounded by (simp add: float_mul_def)
  then show ?thesis
    by (simp add: gemm_defs scenario_gemm_def scenario_hw_simps reload_factor_rounded
        float_eval to_double_eval [where k = 37])
qed

lemma conv_trace_small_buffer:
  "conv_memory_access_trace small_buffer_hw 16 3 (default_conv \<lparr> tiling_size := Some (32, 32) \<rparr>) =
   Inr \<lparr> dram_to_central = 0, central_to_cgra = 439,
         locals = \<lparr> working_set = 1844, reloads = PyFloat (461 / 256), input_load = 3072,
           kernel_load = 36, output_load = 784, total_transfer = 3892 \<rparr> \<rparr>"
  by (simp add: conv_defs default_conv_def small_buffer_hw_simps float_eval)

lemma conv_requirements_16_3:
  "conv_calculate_memory_requirements 16 3 (default_conv \<lparr> tiling_size := Some (32, 32) \<rparr>) =
   Inr \<lparr> input = 1024, kernel = 36, output' = 784, total = 1844,
         dimensions = \<lparr> input_dims = (16, 16, 1), kernel_dims = (3, 3, 1, 1),
           output_dims = (14, 14, 1) \<rparr> \<rparr>"
  by (simp add: conv_defs default_conv_def)

lemma conv_trace_5_3:
  "conv_memory_access_trace scenario_hw 5 3 (default_conv \<lparr> tiling_size := Some (2, 2) \<rparr>) =
   Inr \<lparr> dram_to_central = 0, central_to_cgra = 24,
         locals = \<lparr> working_set = 16, reloads = PyInt 1, input_load = 297,
           kernel_load = 36, output_load = 36, total_transfer = 369 \<rparr> \<rparr>"
  by (simp add: conv_defs default_conv_def scenario_hw_simps float_eval)

lemma conv_requirements_5_3:
  "conv_calculate_memory_requirements 5 3 (default_conv \<lparr> tiling_size := Some (2, 2) \<rparr>) =
   Inr \<lparr> input = 100, kernel = 36, output' = 36, total = 172,
         dimensions = \<lparr> input_dims = (5, 5, 1), kernel_dims = (3, 3, 1, 1),
           output_dims = (3, 3, 1) \<rparr> \<rparr>"
  by (simp add: conv_defs default_conv_def)

section \<open>The reference scenarios\<close>

text \<open>
  Claim C1.  On the reference hardware profile, the analysis of the untiled GEMM workload with
  4-byte elements returns, for dimension 16, 0 cycles from DRAM to central SRAM, 256 cycles
  from central to local SRAM, 2048 computation cycles and a total of 2304 cycles; for
  dimension 256 it returns 65536, 1572864, 8388608 and a total of 10027008 cycles.  The
  computation cycles and the totals are floats; every float operation on the way is exact.
\<close>

theorem reference_scenarios:
  "map_sum id (map (\<lambda>r. (dram_to_central (latencies r), central_to_cgra (latencies r),
                          computation (latencies r), total_latency r)))
     (gemm_analyze scenario_hw scenario_gemm)
   = Inr [(0, 256, 2048, Fin 2304), (65536, 1572864, 8388608, Fin 10027008)]"
proof -
  have "GEMMConfig.dimensions scenario_gemm = [16, 256]"
    by (simp add: scenario_gemm_def)
  then show ?thesis
    by (simp add: gemm_analyze_def gemm_point_16 gemm_point_256)
qed

section \<open>Bytes to cycles\<close>




section \<open>Utilization\<close>

text \<open>
  Claim C9, as the code has it.  For a total footprint \<open>f\<close> with \<open>0 \<le> f < 2^1023\<close> and
  strictly positive capacities, the utilization of each of the three tiers is the minimum of 1
  and the float nearest to \<open>f\<close> divided by the capacity of the tier; each fraction lies
  between 0 and 1, and it is that float whenever the footprint does not exceed the capacity.
\<close>

theorem utilization_fractions:
  assumes "0 \<le> total_memory" and "total_memory < 2 ^ 1023"
    and "0 < cgra_sram_size hw" and "0 < central_sram_size hw" and "0 < dram_size hw"
  shows "\<exists>u. calculate_memory_utilization hw total_memory = Inr u
     \<and> cgra_sram u = min 1 (double_round (of_int total_memory / of_int (cgra_sram_size hw)))
     \<and> central_sram u
         = min 1 (double_round (of_int total_memory / of_int (central_sram_size hw)))
     \<and> dram u = min 1 (double_round (of_int total_memory / of_int (dram_size hw)))
     \<and> 0 \<le> cgra_sram u \<and> cgra_sram u \<le> 1
     \<and> 0 \<le> central_sram u \<and> central_sram u \<le> 1
     \<and> 0 \<le> dram u \<and> dram u \<le> 1
     \<and> (total_memory \<le> cgra_sram_size hw \<longrightarrow>
          cgra_sram u = double_round (of_int total_memory / of_int (cgra_sram_size hw)))
     \<and> (total_memory \<le> central_sram_size hw \<longrightarrow>
          central_sram u = double_round (of_int total_memory / of_int (central_sram_size hw)))
     \<and> (total_memory \<le> dram_size hw \<longrightarrow>
          dram u = double_round (of_int total_memory / of_int (dram_size hw)))"
proof -
  have q: "truediv total_memory c = Inr (double_round (of_int total_memory / of_int c))
      \<and> 0 \<le> double_round (of_int total_memory / of_int c)
      \<and> (total_memory \<le> c \<longrightarrow> double_round (of_int total_memory / of_int c) \<le> 1)"
    if "0 < c" for c
  proof -
    have nn: "(0::rat) \<le> of_int total_memory / of_int c"
      using assms(1) that by simp
    have "truediv total_memory c = Inr (double_round (of_int total_memory / of_int c))"
      using assms(1,2) that by (intro truediv_bounded [where k = 1023]) simp_all
    moreover have "0 \<le> double_round (of_int total_memory / of_int c)"
      using nn by (rule double_round_nonneg)
    moreover have "double_round (of_int total_memory / of_int c) \<le> 1"
      if le: "total_memory \<le> c"
    proof -
      have "(of_int total_memory :: rat) \<le> of_int c"
        using le by simp
      then have "(of_int total_memory :: rat) / of_int c \<le> 1"
        using \<open>0 < c\<close> by (simp add: pos_divide_le_eq)
      then have "double_round (of_int total_memory / of_int c) \<le> 2 ^ 0"
        using nn by (intro double_round_le_pow) simp_all
      then show ?thesis
        by simp
    qed
    ultimately show ?thesis
      by simp
  qed
  from q [OF assms(3)] q [OF assms(4)] q [OF assms(5)] show ?thesis
    by (simp add: calculate_memory_utilization_def)
qed

text \<open>The theorem at concrete inputs that satisfy its hypotheses.\<close>

theorem utilization_fractions_witness:
  "(0::int) \<le> 786432 \<and> (786432::int) < 2 ^ 1023 \<and> 0 < cgra_sram_size scenario_hw
   \<and> 0 < central_sram_size scenario_hw \<and> 0 < dram_size scenario_hw
   \<and> calculate_memory_utilization scenario_hw 786432
       = Inr \<lparr> cgra_sram = 1, central_sram = 1, dram = 3 / 128 \<rparr>"
  using utilization_fractions [of 786432 scenario_hw]
  by (simp add: scenario_hw_simps calculate_memory_utilization_def float_eval)

text \<open>
  A footprint of \<open>10^400\<close> bytes on the reference profile: the quotient by the capacity of
  the local SRAM is beyond the range of the floats, and the division raises
  \<open>OverflowError\<close> where the minimum with 1 would be 1.
\<close>

theorem utilization_fractions_counterexample:
  "calculate_memory_utilization scenario_hw (10 ^ 400) = Inl OverflowError"
proof -
  have "truediv (10 ^ 400) 32768 = Inl OverflowError"
    by (rule truediv_overflow) simp_all
  then show ?thesis
    by (simp add: calculate_memory_utilization_def scenario_hw_simps)
qed

section \<open>Computation cycles and the total\<close>

text \<open>
  Claim C7, as the code has it.  Whenever the analysis of a GEMM point returns, the
  computation cycles are the float nearest to \<open>2 * dimension^3 / 4\<close>, which is that
  quotient itself when \<open>dimension^3\<close> is below \<open>2^53\<close> in absolute value; the total is the
  float sum of the two transfer cycle counts, which are added as ints and converted to a
  float, and the computation cycles; it is the exact sum when the cube, the sum of the
  transfer cycle counts and twice that sum plus the cube are below \<open>2^53\<close> in absolute
  value.  Whenever the analysis of a Conv point returns, the stride is not 0, the computation
  cycles are \<open>2 * kernel_side^2 * channels * output_side^2 * filters\<close> with \<open>output_side =
  floor((input_side + 2 * padding - kernel_side) / stride) + 1\<close> and no division by a
  width, and the total is the integer sum of the DRAM-to-central cycles, the central-to-local
  cycles and the computation cycles.
\<close>

theorem computation_and_total_cycles:
  "(gemm_analyze_point hw gc n = Inr gr \<longrightarrow>
      computation (latencies gr) = double_round (of_int (2 * n ^ 3) / 4)
    \<and> (\<bar>n ^ 3\<bar> < 2 ^ 53 \<longrightarrow> computation (latencies gr) = of_int (2 * n ^ 3) / 4)
    \<and> total_latency gr
        = to_double (double_round
              (of_int (dram_to_central (latencies gr) + central_to_cgra (latencies gr)))
            + computation (latencies gr))
    \<and> (\<bar>n ^ 3\<bar> < 2 ^ 53
        \<and> \<bar>dram_to_central (latencies gr) + central_to_cgra (latencies gr)\<bar> < 2 ^ 53
        \<and> \<bar>2 * (dram_to_central (latencies gr) + central_to_cgra (latencies gr)) + n ^ 3\<bar>
            < 2 ^ 53 \<longrightarrow>
        total_latency gr
          = Fin (of_int (dram_to_central (latencies gr)) + of_int (central_to_cgra (latencies gr))
              + of_int (2 * n ^ 3) / 4)))
 \<and> (conv_analyze_point hw cc m k = Inr cr \<longrightarrow>
      stride cc \<noteq> 0
    \<and> computation (latencies cr)
        = 2 * k\<^sup>2 * num_channels cc * ((m + 2 * padding cc - k) div stride cc + 1)\<^sup>2
            * num_filters cc
    \<and> total_latency cr = dram_to_central (latencies cr) + central_to_cgra (latencies cr)
        + computation (latencies cr))"
proof (intro conjI impI)
  assume g: "gemm_analyze_point hw gc n = Inr gr"
  let ?s = "dram_to_central (latencies gr) + central_to_cgra (latencies gr)"
  from gemm_point_Inr [OF g] obtain a
    where l: "gemm_calculate_latencies hw n (memory gr) gc = Inr (latencies gr)"
      and a: "int_to_float ?s = Inr a"
      and t: "total_latency gr = float_add a (computation (latencies gr))"
    by blast
  from gemm_latencies_Inr [OF l] have "truediv (2 * n * n * n) 4 = Inr (computation (latencies gr))"
    by blast
  from truediv_Inr(2) [OF this]
  show comp: "computation (latencies gr) = double_round (of_int (2 * n ^ 3) / 4)"
    by (simp add: power3_eq_cube mult.assoc)
  have exact: "double_round (of_int (2 * n ^ 3) / 4) = of_int (2 * n ^ 3) / 4"
    if "\<bar>n ^ 3\<bar> < 2 ^ 53"
    using that by (intro double_round_dyadic [where k = 1 and m = "n ^ 3"]) simp_all
  show "computation (latencies gr) = of_int (2 * n ^ 3) / 4" if "\<bar>n ^ 3\<bar> < 2 ^ 53"
    using comp exact [OF that] by simp
  from int_to_float_Inr [OF a] t
  show tot: "total_latency gr
      = to_double (double_round (of_int ?s) + computation (latencies gr))"
    by (simp add: float_add_def)
  show "total_latency gr
      = Fin (of_int (dram_to_central (latencies gr)) + of_int (central_to_cgra (latencies gr))
          + of_int (2 * n ^ 3) / 4)"
    if b: "\<bar>n ^ 3\<bar> < 2 ^ 53 \<and> \<bar>?s\<bar> < 2 ^ 53 \<and> \<bar>2 * ?s + n ^ 3\<bar> < 2 ^ 53"
  proof -
    have s: "double_round (of_int ?s) = of_int ?s"
      using b by (intro double_round_of_int) simp
    have c: "computation (latencies gr) = of_int (2 * n ^ 3) / 4"
      using comp exact b by simp
    have "to_double (of_int ?s + of_int (2 * n ^ 3) / 4)
        = Fin (of_int ?s + of_int (2 * n ^ 3) / 4)"
      using b by (intro to_double_exact [where k = 1 and m = "2 * ?s + n ^ 3"]) simp_all
    then show ?thesis
      unfolding tot s c by simp
  qed
next
  assume c: "conv_analyze_point hw cc m k = Inr cr"
  from conv_point_Inr [OF c]
  have l: "conv_calculate_latencies hw m k (memory cr) cc = Inr (latencies cr)"
    and t: "total_latency cr = dram_to_central (latencies cr) + central_to_cgra (latencies cr)
        + computation (latencies cr)"
    by simp_all
  from conv_latencies_Inr [OF l] obtain od
    where od: "conv_output_dim m k cc = Inr od"
      and v: "computation (latencies cr) = 2 * k * k * num_channels cc * od * od * num_filters cc"
    by blast
  from od have s: "stride cc \<noteq> 0" and odv: "od = (m + 2 * padding cc - k) div stride cc + 1"
    by (simp_all add: conv_output_dim_Inr)
  show "stride cc \<noteq> 0"
    by (rule s)
  show "computation (latencies cr)
      = 2 * k\<^sup>2 * num_channels cc * ((m + 2 * padding cc - k) div stride cc + 1)\<^sup>2
          * num_filters cc"
    unfolding v odv by (simp add: power2_eq_square)
  show "total_latency cr = dram_to_central (latencies cr) + central_to_cgra (latencies cr)
        + computation (latencies cr)"
    by (rule t)
qed

text \<open>The theorem at concrete inputs that satisfy its hypotheses.\<close>

theorem computation_and_total_cycles_witness:
  "gemm_analyze_point scenario_hw scenario_gemm 16 =
     Inr \<lparr> memory = \<lparr> per_matrix = 1024, total = 3072,
             breakdown = \<lparr> input_a = 1024, input_b = 1024, output' = 1024 \<rparr> \<rparr>,
           latencies = \<lparr> dram_to_central = 0, central_to_cgra = 256, computation = 2048 \<rparr>,
           utilization = \<lparr> cgra_sram = 3 / 32, central_sram = 3 / 512, dram = 3 / 32768 \<rparr>,
           total_latency = Fin 2304, dimension = 16 \<rparr>
 \<and> conv_analyze_point scenario_hw (default_conv \<lparr> padding := 1, stride := 2 \<rparr>) 16 3 =
     Inr \<lparr> memory = \<lparr> input = 1024, kernel = 36, output' = 256, total = 1316,
             dimensions = \<lparr> input_dims = (16, 16, 1), kernel_dims = (3, 3, 1, 1),
               output_dims = (8, 8, 1) \<rparr> \<rparr>,
           latencies = \<lparr> dram_to_central = 0, central_to_cgra = 611, computation = 1152 \<rparr>,
           utilization = \<lparr> cgra_sram = 329 / 8192, central_sram = 329 / 131072,
             dram = 329 / 8388608 \<rparr>,
           total_latency = 1763, input_dimension = 16, kernel_size = 3 \<rparr>
 \<and> \<bar>(16::int) ^ 3\<bar> < 2 ^ 53 \<and> \<bar>(0::int) + 256\<bar> < 2 ^ 53
 \<and> \<bar>2 * (0 + 256) + (16::int) ^ 3\<bar> < 2 ^ 53
 \<and> (2048::rat) = of_int (2 * 16 ^ 3) / 4
 \<and> Fin 2304 = Fin (of_int 0 + of_int 256 + of_int (2 * 16 ^ 3) / 4)
 \<and> stride (default_conv \<lparr> padding := 1, stride := 2 \<rparr>) \<noteq> 0
 \<and> (1152::int) = 2 * 3\<^sup>2 * num_channels (default_conv \<lparr> padding := 1, stride := 2 \<rparr>)
       * ((16 + 2 * padding (default_conv \<lparr> padding := 1, stride := 2 \<rparr>) - 3)
            div stride (default_conv \<lparr> padding := 1, stride := 2 \<rparr>) + 1)\<^sup>2
       * num_filters (default_conv \<lparr> padding := 1, stride := 2 \<rparr>)
 \<and> (1763::int) = 0 + 611 + 1152"
  using computation_and_total_cycles [THEN conjunct1, THEN mp, OF gemm_point_16]
    computation_and_total_cycles [THEN conjunct2, THEN mp, OF conv_point_strided]
    gemm_point_16 conv_point_strided
  by (simp add: default_conv_def)

lemma gemm_computation_rounded: "truediv 18014702233349250 4 = Inr 4503675558337312"
proof -
  have "to_double (of_int 18014702233349250 / of_int 4)
      = Fin (of_int (round_half_even (of_int 18014702233349250 / of_int 4 / 2 powi (52 - 52)))
          * 2 powi (52 - 52))"
    by (rule to_double_at) simp_all
  then show ?thesis
    by (simp add: truediv_def round_half_even_def Let_def floor_rat_numeral)
qed

lemma gemm_208065_product:
  "to_double (5622343530272717551875 / 512) = Fin 10981139707563900928"
proof -
  have "to_double (5622343530272717551875 / 512)
      = Fin (of_int (round_half_even (5622343530272717551875 / 512 / 2 powi (63 - 52)))
          * 2 powi (63 - 52))"
    by (rule to_double_at) simp_all
  then show ?thesis
    by (simp add: round_half_even_def Let_def floor_rat_numeral)
qed

lemma gemm_208065_quotient: "to_double 686321231722743808 = Fin 686321231722743808"
proof -
  have "to_double 686321231722743808
      = Fin (of_int (round_half_even (686321231722743808 / 2 powi (59 - 52)))
          * 2 powi (59 - 52))"
    by (rule to_double_at) simp_all
  then show ?thesis
    by (simp add: round_half_even_def Let_def floor_rat_numeral)
qed

lemma gemm_208065_transfer: "int_to_float 686321275013788033 = Inr 686321275013788032"
proof -
  have "to_double (of_int 686321275013788033)
      = Fin (of_int (round_half_even (of_int 686321275013788033 / 2 powi (59 - 52)))
          * 2 powi (59 - 52))"
    by (rule to_double_at) simp_all
  then show ?thesis
    by (simp add: int_to_float_def round_half_even_def Let_def floor_rat_numeral)
qed

lemma gemm_208065_sum: "to_double 690824950572125344 = Fin 690824950572125312"
proof -
  have "to_double 690824950572125344
      = Fin (of_int (round_half_even (690824950572125344 / 2 powi (59 - 52)))
          * 2 powi (59 - 52))"
    by (rule to_double_at) simp_all
  then show ?thesis
    by (simp add: round_half_even_def Let_def floor_rat_numeral)
qed

text \<open>
  GEMM of dimension 208065 on the reference profile: \<open>2 * 208065^3 / 4\<close> is
  4503675558337312.5, which is no float; the computation cycles are 4503675558337312, and
  the total 690824950572125312 is not the sum 690824950572125345.5 of the three cycle counts.
\<close>

theorem computation_and_total_cycles_counterexample:
  "gemm_analyze_point scenario_hw scenario_gemm 208065 =
     Inr \<lparr> memory = \<lparr> per_matrix = 173164176900, total = 519492530700,
             breakdown = \<lparr> input_a = 173164176900, input_b = 173164176900,
               output' = 173164176900 \<rparr> \<rparr>,
           latencies = \<lparr> dram_to_central = 43291044225, central_to_cgra = 686321231722743808,
             computation = 4503675558337312 \<rparr>,
           utilization = \<lparr> cgra_sram = 1, central_sram = 1, dram = 1 \<rparr>,
           total_latency = Fin 690824950572125312, dimension = 208065 \<rparr>
 \<and> (of_int (2 * 208065 ^ 3) / 4 :: rat) = 9007351116674625 / 2
 \<and> (of_int 43291044225 + of_int 686321231722743808 + of_int (2 * 208065 ^ 3) / 4 :: rat)
     = 1381649901144250691 / 2"
  by (simp add: gemm_defs scenario_gemm_def scenario_hw_simps gemm_computation_rounded
      gemm_208065_product gemm_208065_quotient gemm_208065_transfer gemm_208065_sum
      float_eval truediv_eval [where k = 0])

section \<open>Workloads resident in central SRAM\<close>

text \<open>
  Claim C6.  Whenever the analysis of a point returns and the total footprint of the
  workload (GEMM or Conv) is at most the capacity of the central SRAM, the DRAM-to-central
  cycle count is 0: the source sets it to 0 without computing a DRAM byte volume.
\<close>

theorem resident_no_dram_traffic:
  "(GEMMMemReq.total (memory gr) \<le> central_sram_size hw
      \<and> gemm_analyze_point hw gc n = Inr gr \<longrightarrow> dram_to_central (latencies gr) = 0)
 \<and> (ConvMemReq.total (memory cr) \<le> central_sram_size hw
      \<and> conv_analyze_point hw cc m k = Inr cr \<longrightarrow> dram_to_central (latencies cr) = 0)"
proof (intro conjI impI; elim conjE)
  assume fits: "GEMMMemReq.total (memory gr) \<le> central_sram_size hw"
    and g: "gemm_analyze_point hw gc n = Inr gr"
  from gemm_point_Inr [OF g] obtain a
    where a: "gemm_calculate_memory_access_latency hw n (memory gr) gc = Inr a"
      and d: "dram_to_central (latencies gr) = dram_to_central a"
    using gemm_latencies_Inr by blast
  have "per_matrix (memory gr) * 3 = GEMMMemReq.total (memory gr)"
    using gemm_point_Inr [OF g] by (simp add: gemm_calculate_memory_requirements_def Let_def)
  with fits gemm_access_Inr [OF a] d show "dram_to_central (latencies gr) = 0"
    by simp
next
  assume fits: "ConvMemReq.total (memory cr) \<le> central_sram_size hw"
    and c: "conv_analyze_point hw cc m k = Inr cr"
  from conv_point_Inr [OF c] obtain t
    where t: "conv_memory_access_trace hw m k cc = Inr t"
      and d: "dram_to_central (latencies cr) = dram_to_central t"
    using conv_latencies_Inr by blast
  from conv_point_Inr [OF c] have "conv_calculate_memory_requirements m k cc = Inr (memory cr)"
    by simp
  from conv_requirements_Inr [OF this] obtain od
    where od: "conv_output_dim m k cc = Inr od"
      and tot: "ConvMemReq.total (memory cr) = m * m * num_channels cc * data_type_size cc
         + k * k * num_channels cc * num_filters cc * data_type_size cc
         + od * od * num_filters cc * data_type_size cc"
    by auto
  from conv_trace_Inr [OF t] od fits tot have "dram_to_central t = 0"
    by auto
  with d show "dram_to_central (latencies cr) = 0"
    by simp
qed

text \<open>The theorem at concrete inputs that satisfy its hypotheses.\<close>

theorem resident_no_dram_traffic_witness:
  "GEMMMemReq.total \<lparr> per_matrix = 1024, total = 3072,
       breakdown = \<lparr> input_a = 1024, input_b = 1024, output' = 1024 \<rparr> \<rparr>
     \<le> central_sram_size scenario_hw
 \<and> gemm_analyze_point scenario_hw scenario_gemm 16 =
     Inr \<lparr> memory = \<lparr> per_matrix = 1024, total = 3072,
             breakdown = \<lparr> input_a = 1024, input_b = 1024, output' = 1024 \<rparr> \<rparr>,
           latencies = \<lparr> dram_to_central = 0, central_to_cgra = 256, computation = 2048 \<rparr>,
           utilization = \<lparr> cgra_sram = 3 / 32, central_sram = 3 / 512, dram = 3 / 32768 \<rparr>,
           total_latency = Fin 2304, dimension = 16 \<rparr>
 \<and> ConvMemReq.total \<lparr> input = 1024, kernel = 36, output' = 784, total = 1844,
       dimensions = \<lparr> input_dims = (16, 16, 1), kernel_dims = (3, 3, 1, 1),
         output_dims = (14, 14, 1) \<rparr> \<rparr>
     \<le> central_sram_size scenario_hw
 \<and> conv_analyze_point scenario_hw default_conv 16 3 =
     Inr \<lparr> memory = \<lparr> input = 1024, kernel = 36, output' = 784, total = 1844,
             dimensions = \<lparr> input_dims = (16, 16, 1), kernel_dims = (3, 3, 1, 1),
               output_dims = (14, 14, 1) \<rparr> \<rparr>,
           latencies = \<lparr> dram_to_central = 0, central_to_cgra = 677, computation = 3528 \<rparr>,
           utilization = \<lparr> cgra_sram = 461 / 8192, central_sram = 461 / 131072,
             dram = 461 / 8388608 \<rparr>,
           total_latency = 4205, input_dimension = 16, kernel_size = 3 \<rparr>"
  using resident_no_dram_traffic [THEN conjunct1, THEN mp, OF conjI [OF _ gemm_point_16]]
    resident_no_dram_traffic [THEN conjunct2, THEN mp, OF conjI [OF _ conv_point_16_3]]
    gemm_point_16 conv_point_16_3
  by (simp add: scenario_hw_simps)

section \<open>Parameters that the analysis does not read\<close>

lemma transfer_latency_inert:
  "calculate_transfer_latency
     (hw \<lparr> dram_latency := a, central_sram_latency := b, cgra_sram_latency := c \<rparr>) x
   = calculate_transfer_latency hw x"
  by (cases x) (simp_all add: calculate_transfer_latency_def)

lemma utilization_inert:
  "calculate_memory_utilization
     (hw \<lparr> dram_latency := a, central_sram_latency := b, cgra_sram_latency := c \<rparr>) x
   = calculate_memory_utilization hw x"
  by (simp add: calculate_memory_utilization_def)

lemma gemm_access_inert:
  "gemm_calculate_memory_access_latency
     (hw \<lparr> dram_latency := a, central_sram_latency := b, cgra_sram_latency := c \<rparr>) n mr gc
   = gemm_calculate_memory_access_latency hw n mr gc"
  by (simp add: gemm_calculate_memory_access_latency_def transfer_latency_inert
      cong: if_cong)

lemma gemm_point_inert:
  "gemm_analyze_point (hw \<lparr> dram_latency := a, central_sram_latency := b, cgra_sram_latency := c \<rparr>)
     gc n = gemm_analyze_point hw gc n"
  by (simp add: gemm_analyze_point_def gemm_calculate_latencies_def
      gemm_access_inert utilization_inert)

lemma conv_output_dim_inert:
  "conv_output_dim n k (cc \<lparr> dilation := d, groups := g, input_layout := il,
     kernel_layout := kl, vectorization := v \<rparr>) = conv_output_dim n k cc"
  by (simp add: conv_output_dim_def)

lemma conv_loads_inert:
  "conv_loads n k x y z (cc \<lparr> dilation := d, groups := g, input_layout := il,
     kernel_layout := kl, vectorization := v \<rparr>) = conv_loads n k x y z cc"
  by (simp add: conv_loads_def split: option.split)

lemma conv_working_set_inert:
  "conv_working_set x (cc \<lparr> dilation := d, groups := g, input_layout := il,
     kernel_layout := kl, vectorization := v \<rparr>) = conv_working_set x cc"
  by (simp add: conv_working_set_def split: option.split)

lemma conv_trace_inert:
  "conv_memory_access_trace
     (hw \<lparr> dram_latency := a, central_sram_latency := b, cgra_sram_latency := c \<rparr>) n k
     (cc \<lparr> dilation := d, groups := g, input_layout := il, kernel_layout := kl,
           vectorization := v \<rparr>)
   = conv_memory_access_trace hw n k cc"
  by (simp add: conv_memory_access_trace_def transfer_latency_inert conv_output_dim_inert
      conv_loads_inert conv_working_set_inert cong: if_cong)

lemma conv_requirements_inert:
  "conv_calculate_memory_requirements n k
     (cc \<lparr> dilation := d, groups := g, input_layout := il, kernel_layout := kl,
           vectorization := v \<rparr>)
   = conv_calculate_memory_requirements n k cc"
  by (simp add: conv_calculate_memory_requirements_def conv_output_dim_inert)

lemma conv_point_inert:
  "conv_analyze_point (hw \<lparr> dram_latency := a, central_sram_latency := b, cgra_sram_latency := c \<rparr>)
     (cc \<lparr> dilation := d, groups := g, input_layout := il, kernel_layout := kl,
           vectorization := v \<rparr>) n k
   = conv_analyze_point hw cc n k"
  by (simp add: conv_analyze_point_def conv_calculate_latencies_def
      conv_calculate_memory_access_latency_def conv_trace_inert conv_requirements_inert
      conv_output_dim_inert utilization_inert)

text \<open>
  Claim C10.  Changing the three latency fields of the hardware profile, and for Conv the
  fields dilation, groups, input layout, kernel layout and vectorization of the workload,
  changes nothing in the list of result records that the GEMM and the Conv analysis return
  (or in the error they raise).
\<close>

theorem inert_parameters:
  "gemm_analyze (hw \<lparr> dram_latency := a, central_sram_latency := b, cgra_sram_latency := c \<rparr>) gc
     = gemm_analyze hw gc
 \<and> conv_analyze (hw \<lparr> dram_latency := a, central_sram_latency := b, cgra_sram_latency := c \<rparr>)
       (cc \<lparr> dilation := d, groups := g, input_layout := il, kernel_layout := kl,
             vectorization := v \<rparr>)
     = conv_analyze hw cc"
proof
  have "gemm_analyze_point
          (hw \<lparr> dram_latency := a, central_sram_latency := b, cgra_sram_latency := c \<rparr>) gc
        = gemm_analyze_point hw gc"
    by (rule ext) (rule gemm_point_inert)
  then show "gemm_analyze
      (hw \<lparr> dram_latency := a, central_sram_latency := b, cgra_sram_latency := c \<rparr>) gc
     = gemm_analyze hw gc"
    by (simp add: gemm_analyze_def)
next
  show "conv_analyze (hw \<lparr> dram_latency := a, central_sram_latency := b, cgra_sram_latency := c \<rparr>)
       (cc \<lparr> dilation := d, groups := g, input_layout := il, kernel_layout := kl,
             vectorization := v \<rparr>)
     = conv_analyze hw cc"
    by (simp add: conv_analyze_def conv_point_inert)
qed

section \<open>The reload multiplier\<close>

lemma gemm_working_set_cases:
  "gemm_working_set (ms * 3) ms gc =
     (case GEMMConfig.tiling_size gc of
        None \<Rightarrow> ms * 3
      | Some t \<Rightarrow> if t = 0 then ms * 3
                  else (2 * t * t + t * t) * GEMMConfig.data_type_size gc)"
  by (simp add: gemm_working_set_def gemm_tiling_def split: option.split)

lemma conv_working_set_cases:
  "conv_working_set tot cc =
     (case tiling_size cc of
        None \<Rightarrow> tot
      | Some (th, tw) \<Rightarrow> min tot (th * tw * num_channels cc * data_type_size cc))"
  by (simp add: conv_working_set_def split: option.split prod.split)

lemma max_int_float_1: "max_int_float 1 q = (if 1 < q then PyFloat q else PyInt 1)"
  by (simp add: max_int_float_def)

text \<open>
  Claim C2, as the code has it.  Whenever the traffic computation returns, the reload
  multiplier is the float \<open>q\<close> nearest to the working set divided by the capacity of the
  local SRAM if that float is greater than 1, and the int 1 otherwise.  In the first case the
  central-to-local cycle count is the ceiling of a float: the transfer total before the
  multiplication is converted to a float and multiplied by \<open>q\<close>, the product is divided by
  the transfer rate, and the conversion, the product and the quotient are each rounded to the
  nearest float.  In the second case the cycle count is the ceiling of the float nearest to
  the transfer total divided by the rate.  The working set is \<open>(2 t^2 + t^2) * element_size\<close>
  for GEMM with a tile side \<open>t\<close> other than 0; for Conv with a tile shape it is the minimum of
  the total footprint and \<open>tile_h * tile_w * channels * element_size\<close>; it is the total
  footprint when tiling is off, which for GEMM includes a tile side of 0.
\<close>

theorem reload_multiplier:
  "(gemm_calculate_memory_access_latency hw n (gemm_calculate_memory_requirements n gc) gc = Inr g
      \<longrightarrow>
      working_set (debug_info g) =
        (case GEMMConfig.tiling_size gc of
           None \<Rightarrow> GEMMMemReq.total (gemm_calculate_memory_requirements n gc)
         | Some t \<Rightarrow>
             if t = 0 then GEMMMemReq.total (gemm_calculate_memory_requirements n gc)
             else (2 * t\<^sup>2 + t\<^sup>2) * GEMMConfig.data_type_size gc)
    \<and> reloads (debug_info g)
        = (if 1 < double_round (of_int (working_set (debug_info g))
                     / of_int (cgra_sram_size hw))
           then PyFloat (double_round (of_int (working_set (debug_info g))
                     / of_int (cgra_sram_size hw)))
           else PyInt 1)
    \<and> central_to_cgra g
        = (if 1 < double_round (of_int (working_set (debug_info g))
                     / of_int (cgra_sram_size hw))
           then \<lceil>double_round
                  (double_round
                     (double_round (of_int (matrix_a_load (debug_info g)
                        + matrix_b_load (debug_info g) + matrix_c_load (debug_info g)
                        + matrix_c_store (debug_info g)))
                      * double_round (of_int (working_set (debug_info g))
                          / of_int (cgra_sram_size hw)))
                   / double_round (of_int (dma_transfer_rate hw)))\<rceil>
           else \<lceil>double_round
                  (of_int (matrix_a_load (debug_info g) + matrix_b_load (debug_info g)
                     + matrix_c_load (debug_info g) + matrix_c_store (debug_info g))
                   / of_int (dma_transfer_rate hw))\<rceil>))
 \<and> (conv_calculate_memory_requirements m k cc = Inr mr
      \<and> conv_memory_access_trace hw m k cc = Inr t \<longrightarrow>
      working_set (locals t) =
        (case tiling_size cc of
           None \<Rightarrow> ConvMemReq.total mr
         | Some (th, tw) \<Rightarrow>
             min (ConvMemReq.total mr) (th * tw * num_channels cc * data_type_size cc))
    \<and> reloads (locals t)
        = (if 1 < double_round (of_int (working_set (locals t)) / of_int (cgra_sram_size hw))
           then PyFloat (double_round (of_int (working_set (locals t))
                     / of_int (cgra_sram_size hw)))
           else PyInt 1)
    \<and> central_to_cgra t
        = (if 1 < double_round (of_int (working_set (locals t)) / of_int (cgra_sram_size hw))
           then \<lceil>double_round
                  (double_round
                     (double_round (of_int (total_transfer (locals t)))
                      * double_round (of_int (working_set (locals t))
                          / of_int (cgra_sram_size hw)))
                   / double_round (of_int (dma_transfer_rate hw)))\<rceil>
           else \<lceil>double_round
                  (of_int (total_transfer (locals t)) / of_int (dma_transfer_rate hw))\<rceil>))"
proof (intro conjI impI; (elim conjE)?)
  assume a: "gemm_calculate_memory_access_latency hw n
      (gemm_calculate_memory_requirements n gc) gc = Inr g"
  note acc = gemm_access_Inr [OF a]
  let ?T = "matrix_a_load (debug_info g) + matrix_b_load (debug_info g)
      + matrix_c_load (debug_info g) + matrix_c_store (debug_info g)"
  have tot: "per_matrix (gemm_calculate_memory_requirements n gc) * 3
      = GEMMMemReq.total (gemm_calculate_memory_requirements n gc)"
    by (simp add: gemm_calculate_memory_requirements_def Let_def)
  have "working_set (debug_info g)
      = (case GEMMConfig.tiling_size gc of
           None \<Rightarrow> per_matrix (gemm_calculate_memory_requirements n gc) * 3
         | Some t \<Rightarrow>
             if t = 0 then per_matrix (gemm_calculate_memory_requirements n gc) * 3
             else (2 * t * t + t * t) * GEMMConfig.data_type_size gc)"
    using acc by (simp add: gemm_working_set_cases)
  then show "working_set (debug_info g) =
        (case GEMMConfig.tiling_size gc of
           None \<Rightarrow> GEMMMemReq.total (gemm_calculate_memory_requirements n gc)
         | Some t \<Rightarrow>
             if t = 0 then GEMMMemReq.total (gemm_calculate_memory_requirements n gc)
             else (2 * t\<^sup>2 + t\<^sup>2) * GEMMConfig.data_type_size gc)"
    unfolding tot by (simp add: power2_eq_square mult.assoc split: option.split)
  from acc obtain q s
    where q: "truediv (working_set (debug_info g)) (cgra_sram_size hw) = Inr q"
      and r: "reloads (debug_info g) = max_int_float 1 q"
      and s: "times_reloads ?T (reloads (debug_info g)) = Inr s"
      and c: "calculate_transfer_latency hw s = Inr (central_to_cgra g)"
    by blast
  have qv: "q = double_round (of_int (working_set (debug_info g)) / of_int (cgra_sram_size hw))"
    using q by (rule truediv_Inr)
  show "reloads (debug_info g)
        = (if 1 < double_round (of_int (working_set (debug_info g))
                     / of_int (cgra_sram_size hw))
           then PyFloat (double_round (of_int (working_set (debug_info g))
                     / of_int (cgra_sram_size hw)))
           else PyInt 1)"
    unfolding r qv by (rule max_int_float_1)
  from scaled_transfer_Inr [OF s [unfolded r] c]
  show "central_to_cgra g
        = (if 1 < double_round (of_int (working_set (debug_info g))
                     / of_int (cgra_sram_size hw))
           then \<lceil>double_round
                  (double_round
                     (double_round (of_int ?T)
                      * double_round (of_int (working_set (debug_info g))
                          / of_int (cgra_sram_size hw)))
                   / double_round (of_int (dma_transfer_rate hw)))\<rceil>
           else \<lceil>double_round (of_int ?T / of_int (dma_transfer_rate hw))\<rceil>)"
    unfolding qv .
next
  assume rq: "conv_calculate_memory_requirements m k cc = Inr mr"
    and t: "conv_memory_access_trace hw m k cc = Inr t"
  from conv_requirements_Inr [OF rq] obtain od
    where od: "conv_output_dim m k cc = Inr od"
      and tot: "ConvMemReq.total mr = m * m * num_channels cc * data_type_size cc
         + k * k * num_channels cc * num_filters cc * data_type_size cc
         + od * od * num_filters cc * data_type_size cc"
    by auto
  from conv_trace_Inr [OF t] od tot obtain q s
    where ws: "working_set (locals t) = conv_working_set (ConvMemReq.total mr) cc"
      and q: "truediv (working_set (locals t)) (cgra_sram_size hw) = Inr q"
      and r: "reloads (locals t) = max_int_float 1 q"
      and s: "times_reloads (total_transfer (locals t)) (reloads (locals t)) = Inr s"
      and c: "calculate_transfer_latency hw s = Inr (central_to_cgra t)"
    by auto
  from ws show "working_set (locals t) =
        (case tiling_size cc of
           None \<Rightarrow> ConvMemReq.total mr
         | Some (th, tw) \<Rightarrow>
             min (ConvMemReq.total mr) (th * tw * num_channels cc * data_type_size cc))"
    by (simp add: conv_working_set_cases)
  have qv: "q = double_round (of_int (working_set (locals t)) / of_int (cgra_sram_size hw))"
    using q by (rule truediv_Inr)
  show "reloads (locals t)
        = (if 1 < double_round (of_int (working_set (locals t)) / of_int (cgra_sram_size hw))
           then PyFloat (double_round (of_int (working_set (locals t))
                     / of_int (cgra_sram_size hw)))
           else PyInt 1)"
    unfolding r qv by (rule max_int_float_1)
  from scaled_transfer_Inr [OF s [unfolded r] c]
  show "central_to_cgra t
        = (if 1 < double_round (of_int (working_set (locals t)) / of_int (cgra_sram_size hw))
           then \<lceil>double_round
                  (double_round
                     (double_round (of_int (total_transfer (locals t)))
                      * double_round (of_int (working_set (locals t))
                          / of_int (cgra_sram_size hw)))
                   / double_round (of_int (dma_transfer_rate hw)))\<rceil>
           else \<lceil>double_round
                  (of_int (total_transfer (locals t)) / of_int (dma_transfer_rate hw))\<rceil>)"
    unfolding qv .
qed

text \<open>The theorem at concrete inputs that satisfy its hypotheses.\<close>

theorem reload_multiplier_witness:
  "gemm_calculate_memory_access_latency (scenario_hw \<lparr> cgra_sram_size := 25600 \<rparr>) 224
     (gemm_calculate_memory_requirements 224
        (scenario_gemm \<lparr> GEMMConfig.tiling_size := Some 48 \<rparr>))
     (scenario_gemm \<lparr> GEMMConfig.tiling_size := Some 48 \<rparr>) =
   Inr \<lparr> dram_to_central = 57600, central_to_cgra = 62209,
         debug_info = \<lparr> working_set = 27648,
           reloads = PyFloat (607985949695017 / 562949953421312), matrix_a_load = 230400,
           matrix_b_load = 230400, matrix_c_load = 230400, matrix_c_store = 230400 \<rparr> \<rparr>
 \<and> conv_calculate_memory_requirements 16 3 (default_conv \<lparr> tiling_size := Some (32, 32) \<rparr>) =
   Inr \<lparr> input = 1024, kernel = 36, output' = 784, total = 1844,
         dimensions = \<lparr> input_dims = (16, 16, 1), kernel_dims = (3, 3, 1, 1),
           output_dims = (14, 14, 1) \<rparr> \<rparr>
 \<and> conv_memory_access_trace small_buffer_hw 16 3 (default_conv \<lparr> tiling_size := Some (32, 32) \<rparr>) =
   Inr \<lparr> dram_to_central = 0, central_to_cgra = 439,
         locals = \<lparr> working_set = 1844, reloads = PyFloat (461 / 256), input_load = 3072,
           kernel_load = 36, output_load = 784, total_transfer = 3892 \<rparr> \<rparr>
 \<and> (27648::int) = (2 * 48\<^sup>2 + 48\<^sup>2) * 4
 \<and> double_round (of_int 27648
       / of_int (cgra_sram_size (scenario_hw \<lparr> cgra_sram_size := 25600 \<rparr>)))
     = 607985949695017 / 562949953421312
 \<and> (1844::int) = min 1844 (32 * 32 * 1 * 4)
 \<and> double_round (of_int 1844 / of_int (cgra_sram_size small_buffer_hw)) = 461 / 256"
proof -
  have d1: "double_round (27 / 25) = 607985949695017 / 562949953421312"
    using truediv_Inr(2) [OF reload_factor_rounded] by simp
  have d2: "double_round (461 / 256) = 461 / 256"
    by (rule double_round_dyadic [where k = 8 and m = 461]) simp_all
  show ?thesis
    using reload_multiplier [THEN conjunct1, THEN mp, OF gemm_access_rounded]
      reload_multiplier [THEN conjunct2, THEN mp,
        OF conjI [OF conv_requirements_16_3 conv_trace_small_buffer]]
      gemm_access_rounded conv_requirements_16_3 conv_trace_small_buffer
    by (simp add: small_buffer_hw_simps d1 d2)
qed

text \<open>
  The tile volume itself is not the working set of tiled Conv.  With a local SRAM of 1 KiB,
  an input side of 16, a kernel side of 3 and 32 by 32 tiles, the footprint is 1844 bytes and
  the tile volume 4096 bytes: the code multiplies by 461/256, the tile volume alone would give
  4.  And the factor is a float: with a local SRAM of 25 KiB, GEMM of dimension 224 with tile
  side 48 has the working set 27648 and the transfer total 921600; the code returns 62209
  cycles, the unrounded factor \<open>27648 / 25600\<close> gives \<open>995328 / 16 = 62208\<close>.
\<close>

theorem reload_multiplier_counterexample:
  "map_sum id (reloads \<circ> locals)
     (conv_memory_access_trace small_buffer_hw 16 3
        (default_conv \<lparr> tiling_size := Some (32, 32) \<rparr>)) = Inr (PyFloat (461 / 256))
 \<and> max 1 (of_int (32 * 32 * num_channels default_conv * data_type_size default_conv)
           / of_int (cgra_sram_size small_buffer_hw)) = (4::rat)
 \<and> (461 / 256 :: rat) \<noteq> 4
 \<and> map_sum id central_to_cgra
     (gemm_calculate_memory_access_latency (scenario_hw \<lparr> cgra_sram_size := 25600 \<rparr>) 224
        (gemm_calculate_memory_requirements 224
           (scenario_gemm \<lparr> GEMMConfig.tiling_size := Some 48 \<rparr>))
        (scenario_gemm \<lparr> GEMMConfig.tiling_size := Some 48 \<rparr>)) = Inr 62209
 \<and> \<lceil>(of_int (4 * 230400) * max 1 (of_int 27648 / of_int 25600) / of_int 16 :: rat)\<rceil> = 62208"
proof -
  have "max 1 (of_int (32 * 32 * num_channels default_conv * data_type_size default_conv)
           / of_int (cgra_sram_size small_buffer_hw)) = (4::rat)"
    by (simp add: small_buffer_hw_simps default_conv_def)
  then show ?thesis
    by (simp add: conv_trace_small_buffer gemm_access_rounded)
qed

section \<open>Transfer volumes of tiled Conv\<close>

text \<open>
  Claim C3, as the code has it.  For Conv with a tile shape \<open>(th, tw)\<close> of positive sides
  and input side \<open>n\<close>, whenever the traffic computation returns, the input transfer volume is
  \<open>effective_tile_bytes * tiles_h * tiles_w * (1 + (kernel_side - 1))\<close> with
  \<open>tiles_h = ceil(n / th)\<close>, \<open>tiles_w = ceil(n / tw)\<close> and \<open>effective_tile_bytes\<close> the
  floor of \<open>input_bytes / (tiles_h * tiles_w)\<close>, an integer division; the kernel contributes
  its bytes once, the output contributes its bytes once, and the total before the reload
  multiplication is the sum of the three.
\<close>

theorem tiled_conv_transfer_volumes:
  assumes "tiling_size cc = Some (th, tw)" and "0 < th" and "0 < tw"
    and "conv_calculate_memory_requirements n k cc = Inr mr"
    and "conv_memory_access_trace hw n k cc = Inr t"
  shows "input_load (locals t)
       = input mr div (\<lceil>(of_int n :: rat) / of_int th\<rceil> * \<lceil>(of_int n :: rat) / of_int tw\<rceil>)
           * \<lceil>(of_int n :: rat) / of_int th\<rceil> * \<lceil>(of_int n :: rat) / of_int tw\<rceil>
           * (1 + (k - 1))
     \<and> kernel_load (locals t) = kernel mr
     \<and> output_load (locals t) = output' mr
     \<and> total_transfer (locals t)
       = input_load (locals t) + kernel_load (locals t) + output_load (locals t)"
proof -
  from conv_requirements_Inr [OF assms(4)] obtain od
    where od: "conv_output_dim n k cc = Inr od"
      and inp: "input mr = n * n * num_channels cc * data_type_size cc"
      and ker: "kernel mr = k * k * num_channels cc * num_filters cc * data_type_size cc"
      and out: "output' mr = od * od * num_filters cc * data_type_size cc"
    by auto
  from conv_trace_Inr [OF assms(5)] od
  have loads: "conv_loads n k (input mr) (kernel mr) (output' mr) cc
         = Inr (input_load (locals t), kernel_load (locals t), output_load (locals t))"
    and tot: "total_transfer (locals t)
         = input_load (locals t) + kernel_load (locals t) + output_load (locals t)"
    by (auto simp: inp ker out)
  from conv_loads_tiled_Inr [OF assms(1) loads]
  have "input_load (locals t)
       = input mr div (((n + th - 1) div th) * ((n + tw - 1) div tw))
           * ((n + th - 1) div th) * ((n + tw - 1) div tw) * (1 + (k - 1))"
    and "kernel_load (locals t) = kernel mr" and "output_load (locals t) = output' mr"
    by simp_all
  with tot show ?thesis
    by (simp only: tiles_ceiling [OF assms(2)] tiles_ceiling [OF assms(3)] simp_thms)
qed

text \<open>The theorem at concrete inputs that satisfy its hypotheses.\<close>

theorem tiled_conv_transfer_volumes_witness:
  "tiling_size (default_conv \<lparr> tiling_size := Some (2, 2) \<rparr>) = Some (2, 2)
 \<and> (0::int) < 2
 \<and> conv_calculate_memory_requirements 5 3 (default_conv \<lparr> tiling_size := Some (2, 2) \<rparr>) =
   Inr \<lparr> input = 100, kernel = 36, output' = 36, total = 172,
         dimensions = \<lparr> input_dims = (5, 5, 1), kernel_dims = (3, 3, 1, 1),
           output_dims = (3, 3, 1) \<rparr> \<rparr>
 \<and> conv_memory_access_trace scenario_hw 5 3 (default_conv \<lparr> tiling_size := Some (2, 2) \<rparr>) =
   Inr \<lparr> dram_to_central = 0, central_to_cgra = 24,
         locals = \<lparr> working_set = 16, reloads = PyInt 1, input_load = 297,
           kernel_load = 36, output_load = 36, total_transfer = 369 \<rparr> \<rparr>
 \<and> (297::int) = 100 div (\<lceil>(of_int 5 :: rat) / of_int 2\<rceil> * \<lceil>(of_int 5 :: rat) / of_int 2\<rceil>)
           * \<lceil>(of_int 5 :: rat) / of_int 2\<rceil> * \<lceil>(of_int 5 :: rat) / of_int 2\<rceil> * (1 + (3 - 1))
 \<and> (369::int) = 297 + 36 + 36"
proof -
  have tl: "tiling_size (default_conv \<lparr> tiling_size := Some (2, 2) \<rparr>) = Some (2, 2)"
    by simp
  have pos: "(0::int) < 2"
    by simp
  from tiled_conv_transfer_volumes [OF tl pos pos conv_requirements_5_3 conv_trace_5_3]
  show ?thesis
    using conv_requirements_5_3 conv_trace_5_3 by simp
qed

text \<open>
  With the exact quotient in place of the integer division the volume differs: for an input
  side of 5, one channel of 4-byte elements, 2 by 2 tiles and a kernel side of 3 the input
  has 100 bytes in 9 tiles, the code loads \<open>11 * 9 * 3 = 297\<close> bytes, and the exact quotient
  would give 300.
\<close>

theorem tiled_conv_transfer_volumes_counterexample:
  "map_sum id (input_load \<circ> locals)
     (conv_memory_access_trace scenario_hw 5 3 (default_conv \<lparr> tiling_size := Some (2, 2) \<rparr>))
     = Inr 297
 \<and> map_sum id input (conv_calculate_memory_requirements 5 3
       (default_conv \<lparr> tiling_size := Some (2, 2) \<rparr>)) = Inr 100
 \<and> \<lceil>(5::rat) / 2\<rceil> = 3
 \<and> (100::rat) / (3 * 3) * 3 * 3 * (1 + (3 - 1)) = 300
 \<and> (297::rat) \<noteq> 300"
  by (simp add: conv_trace_5_3 conv_requirements_5_3 ceiling_rat_numeral)

section \<open>Tile sides of zero\<close>

text \<open>
  Claim C5, as the code has it.  For a Conv workload whose tile height or tile width is 0,
  the traffic computation, and with it the analysis of the point, raises
  \<open>ZeroDivisionError\<close>, the error of the division itself, and returns no result.  For GEMM
  a tile side of 0 is read as tiling switched off: the traffic computation returns what it
  returns without a tile side.
\<close>

theorem zero_tile:
  "(tiling_size cc = Some (th, tw) \<and> (th = 0 \<or> tw = 0) \<longrightarrow>
      conv_calculate_memory_access_latency hw n k cc = Inl ZeroDivisionError
    \<and> conv_analyze_point hw cc n k = Inl ZeroDivisionError)
 \<and> gemm_calculate_memory_access_latency hw m mr (gc \<lparr> GEMMConfig.tiling_size := Some 0 \<rparr>)
     = gemm_calculate_memory_access_latency hw m mr (gc \<lparr> GEMMConfig.tiling_size := None \<rparr>)"
proof (intro conjI impI; (elim conjE)?)
  assume tl: "tiling_size cc = Some (th, tw)" and z: "th = 0 \<or> tw = 0"
  have loads: "conv_loads n k x y w cc = Inl ZeroDivisionError" for x y w
    using tl z by (rule conv_loads_zero_tile)
  have trace: "conv_memory_access_trace hw n k cc = Inl ZeroDivisionError"
    by (cases "stride cc = 0")
      (simp_all add: conv_memory_access_trace_def conv_output_dim_def Let_def loads)
  show "conv_calculate_memory_access_latency hw n k cc = Inl ZeroDivisionError"
    by (simp add: conv_calculate_memory_access_latency_def trace)
  show "conv_analyze_point hw cc n k = Inl ZeroDivisionError"
    by (cases "stride cc = 0")
      (simp_all add: conv_analyze_point_def conv_calculate_memory_requirements_def
        conv_output_dim_def conv_calculate_latencies_def
        conv_calculate_memory_access_latency_def trace Let_def)
next
  show "gemm_calculate_memory_access_latency hw m mr (gc \<lparr> GEMMConfig.tiling_size := Some 0 \<rparr>)
     = gemm_calculate_memory_access_latency hw m mr (gc \<lparr> GEMMConfig.tiling_size := None \<rparr>)"
    by (simp add: gemm_calculate_memory_access_latency_def gemm_loads_def gemm_working_set_def
        gemm_tiling_def)
qed

text \<open>The theorem at concrete inputs that satisfy its hypotheses.\<close>

theorem zero_tile_witness:
  "tiling_size (default_conv \<lparr> tiling_size := Some (0, 32) \<rparr>) = Some (0, 32)
 \<and> ((0::int) = 0 \<or> (32::int) = 0)
 \<and> conv_calculate_memory_access_latency scenario_hw 16 3
      (default_conv \<lparr> tiling_size := Some (0, 32) \<rparr>) = Inl ZeroDivisionError
 \<and> conv_analyze_point scenario_hw (default_conv \<lparr> tiling_size := Some (0, 32) \<rparr>) 16 3
      = Inl ZeroDivisionError"
proof -
  have tl: "tiling_size (default_conv \<lparr> tiling_size := Some (0, 32) \<rparr>) = Some (0, 32)"
    by simp
  have z: "(0::int) = 0 \<or> (32::int) = 0"
    by simp
  from zero_tile [THEN conjunct1, THEN mp, OF conjI [OF tl z]] tl z
  show ?thesis
    by simp
qed

text \<open>
  GEMM of dimension 16 with a tile side of 0 on the reference profile: the traffic
  computation returns the untiled result.
\<close>

theorem zero_tile_counterexample:
  "gemm_calculate_memory_access_latency scenario_hw 16
     (gemm_calculate_memory_requirements 16 scenario_gemm)
     (scenario_gemm \<lparr> GEMMConfig.tiling_size := Some 0 \<rparr>) =
   Inr \<lparr> dram_to_central = 0, central_to_cgra = 256,
         debug_info = \<lparr> working_set = 3072, reloads = PyInt 1, matrix_a_load = 1024,
           matrix_b_load = 1024, matrix_c_load = 1024, matrix_c_store = 1024 \<rparr> \<rparr>"
  by (rule gemm_access_zero_tile)

section \<open>Output sides below 1\<close>

lemma transfer_int_returns:
  assumes "0 \<le> s" and "s \<le> 2 ^ j" and "j \<le> 1023" and "0 < dma_transfer_rate hw"
  shows "\<exists>c. calculate_transfer_latency hw (IntBytes s) = Inr c"
  using truediv_bounded [OF assms(1,4,2,3)]
  by (simp add: calculate_transfer_latency_def ceil_to_int_def)

lemma transfer_float_returns:
  assumes "0 \<le> y" and "y \<le> 2 ^ j" and "j \<le> 1023"
    and "0 < dma_transfer_rate hw" and "dma_transfer_rate hw \<le> 2 ^ 1023"
  shows "\<exists>c. calculate_transfer_latency hw (FloatBytes (Fin y)) = Inr c"
proof -
  define b where "b = double_round (of_int (dma_transfer_rate hw))"
  have conv: "int_to_float (dma_transfer_rate hw) = Inr b"
    unfolding b_def using assms(4,5) by (intro int_to_float_bounded [where k = 1023]) simp_all
  have "2 powi 0 \<le> (of_int (dma_transfer_rate hw) :: rat)"
    using assms(4) by simp
  then have "2 powi 0 \<le> b"
    unfolding b_def by (rule double_round_ge_power) simp
  then have b1: "1 \<le> b"
    by simp
  have "y / b \<le> y / 1"
    using b1 assms(1) by (intro divide_left_mono) simp_all
  with assms(2) have le: "y / b \<le> 2 ^ j"
    by simp
  have "0 \<le> y / b"
    using b1 assms(1) by simp
  then have "to_double (y / b) = Fin (double_round (y / b))"
    using le assms(3) by (rule to_double_bounded)
  with conv b1 show ?thesis
    by (simp add: calculate_transfer_latency_def ceil_to_int_def float_div_def)
qed

lemma scaled_transfer_returns:
  assumes t: "0 \<le> t" "t \<le> 2 ^ 500" and q: "0 \<le> q" "q \<le> 2 ^ 500"
    and r: "0 < dma_transfer_rate hw" "dma_transfer_rate hw \<le> 2 ^ 1023"
  shows "\<exists>s c. times_reloads t (max_int_float 1 q) = Inr s
      \<and> calculate_transfer_latency hw s = Inr c"
proof (cases "1 < q")
  case True
  define a where "a = double_round (of_int t)"
  have conv: "int_to_float t = Inr a"
    unfolding a_def using t by (intro int_to_float_bounded [where k = 500]) simp_all
  have t0: "(0::rat) \<le> of_int t"
    using t(1) by simp
  have "(of_int t :: rat) \<le> of_int (2 ^ 500)"
    using t(2) by (simp only: of_int_le_iff)
  then have t500: "(of_int t :: rat) \<le> 2 ^ 500"
    by simp
  have a0: "0 \<le> a"
    unfolding a_def using t0 by (rule double_round_nonneg)
  have a500: "a \<le> 2 ^ 500"
    unfolding a_def using t0 t500 by (rule double_round_le_pow)
  have "a * q \<le> 2 ^ 500 * 2 ^ 500"
    using a0 a500 q by (intro mult_mono) simp_all
  also have "(2::rat) ^ 500 * 2 ^ 500 = 2 ^ 1000"
    by (simp add: power_add [symmetric])
  finally have p1000: "a * q \<le> 2 ^ 1000" .
  have p0: "0 \<le> a * q"
    using a0 q(1) by simp
  have prod: "float_mul a q = Fin (double_round (a * q))"
    unfolding float_mul_def using p0 p1000 by (rule to_double_bounded) simp
  have y0: "0 \<le> double_round (a * q)"
    using p0 by (rule double_round_nonneg)
  have y1000: "double_round (a * q) \<le> 2 ^ 1000"
    using p0 p1000 by (rule double_round_le_pow)
  from transfer_float_returns [OF y0 y1000 _ r] obtain c
    where "calculate_transfer_latency hw (FloatBytes (Fin (double_round (a * q)))) = Inr c"
    by auto
  with True conv prod show ?thesis
    by (simp add: times_reloads_def max_int_float_def)
next
  case False
  from transfer_int_returns [OF t _ r(1)] obtain c
    where "calculate_transfer_latency hw (IntBytes t) = Inr c"
    by auto
  with False show ?thesis
    by (simp add: times_reloads_def max_int_float_def)
qed

lemma utilization_returns:
  assumes "0 \<le> total_memory" and "total_memory \<le> 2 ^ 500"
    and "0 < cgra_sram_size hw" and "0 < central_sram_size hw" and "0 < dram_size hw"
  shows "\<exists>u. calculate_memory_utilization hw total_memory = Inr u"
  using truediv_bounded [OF assms(1,3,2)] truediv_bounded [OF assms(1,4,2)]
    truediv_bounded [OF assms(1,5,2)]
  by (simp add: calculate_memory_utilization_def)

lemma conv_trace_returns:
  assumes od: "conv_output_dim n k cc = Inr od"
    and loads: "conv_loads n k (n * n * num_channels cc * data_type_size cc)
          (k * k * num_channels cc * num_filters cc * data_type_size cc)
          (od * od * num_filters cc * data_type_size cc) cc = Inr (il, kl, ol)"
    and tr: "0 \<le> il + kl + ol" "il + kl + ol \<le> 2 ^ 500"
    and ws: "0 \<le> conv_working_set (n * n * num_channels cc * data_type_size cc
          + k * k * num_channels cc * num_filters cc * data_type_size cc
          + od * od * num_filters cc * data_type_size cc) cc"
      "conv_working_set (n * n * num_channels cc * data_type_size cc
          + k * k * num_channels cc * num_filters cc * data_type_size cc
          + od * od * num_filters cc * data_type_size cc) cc \<le> 2 ^ 500"
    and cg: "0 < cgra_sram_size hw"
    and r: "0 < dma_transfer_rate hw" "dma_transfer_rate hw \<le> 2 ^ 1023"
  shows "\<exists>t. conv_memory_access_trace hw n k cc = Inr t"
proof -
  let ?tot = "n * n * num_channels cc * data_type_size cc
          + k * k * num_channels cc * num_filters cc * data_type_size cc
          + od * od * num_filters cc * data_type_size cc"
  define w where "w = conv_working_set ?tot cc"
  define q where "q = double_round (of_int w / of_int (cgra_sram_size hw))"
  have w: "0 \<le> w" "w \<le> 2 ^ 500"
    using ws by (simp_all add: w_def)
  have quot: "truediv w (cgra_sram_size hw) = Inr q"
    unfolding q_def using w cg by (intro truediv_bounded [where k = 500]) simp_all
  have x0: "(0::rat) \<le> of_int w / of_int (cgra_sram_size hw)"
    using w(1) cg by simp
  have "(of_int w :: rat) / of_int (cgra_sram_size hw) \<le> of_int w / 1"
    using w(1) cg by (intro divide_left_mono) simp_all
  also have "(of_int w :: rat) \<le> of_int (2 ^ 500)"
    using w(2) by (simp only: of_int_le_iff)
  finally have x500: "(of_int w :: rat) / of_int (cgra_sram_size hw) \<le> 2 ^ 500"
    by simp
  have q0: "0 \<le> q"
    unfolding q_def using x0 by (rule double_round_nonneg)
  have q500: "q \<le> 2 ^ 500"
    unfolding q_def using x0 x500 by (rule double_round_le_pow)
  from scaled_transfer_returns [OF tr q0 q500 r] obtain s c
    where s: "times_reloads (il + kl + ol) (max_int_float 1 q) = Inr s"
      and c: "calculate_transfer_latency hw s = Inr c"
    by blast
  from transfer_int_returns [OF tr _ r(1)] obtain d
    where d: "calculate_transfer_latency hw (IntBytes (il + kl + ol)) = Inr d"
    by auto
  show ?thesis
    unfolding conv_memory_access_trace_def Let_def
    using od loads quot s c d by (simp add: w_def [symmetric])
qed

lemma conv_point_returns:
  assumes od: "conv_output_dim n k cc = Inr od"
    and t: "conv_memory_access_trace hw n k cc = Inr t"
    and u: "calculate_memory_utilization hw
        (n * n * num_channels cc * data_type_size cc
          + k * k * num_channels cc * num_filters cc * data_type_size cc
          + od * od * num_filters cc * data_type_size cc) = Inr u"
  shows "\<exists>r. conv_analyze_point hw cc n k = Inr r
     \<and> output' (memory r) = od * od * num_filters cc * data_type_size cc
     \<and> output_dims (dimensions (memory r)) = (od, od, num_filters cc)
     \<and> computation (latencies r)
         = 2 * k * k * num_channels cc * od * od * num_filters cc"
  unfolding conv_analyze_point_def conv_calculate_memory_requirements_def
    conv_calculate_latencies_def conv_calculate_memory_access_latency_def Let_def
  using od t u by simp

lemma div_mult_bounds:
  assumes "0 \<le> (a::int)" and "0 < b"
  shows "0 \<le> a div b * b" and "a div b * b \<le> a"
proof -
  have "0 \<le> a div b"
    using assms by (simp add: pos_imp_zdiv_nonneg_iff)
  then show "0 \<le> a div b * b"
    using assms(2) by simp
  have "a div b * b + a mod b = a"
    by simp
  moreover have "0 \<le> a mod b"
    using assms(2) by simp
  ultimately show "a div b * b \<le> a"
    by linarith
qed

text \<open>
  Claim C4, as the code has it.  The analysis does not check the derived output side.  For a
  Conv workload whose output side \<open>floor((input_side + 2 * padding - kernel_side) / stride) + 1\<close>
  is less than 1, with a positive input side, kernel side, channel count, filter count and
  element size, untiled or with positive tile sides, on a profile with positive capacities and
  a positive transfer rate of at most \<open>2^1023\<close>, the analysis returns a result record; its
  output bytes and its computation cycles are computed from the square of that output side.
  The byte volumes are taken to be at most \<open>2^500\<close>, which keeps every float operation of
  the analysis in the range of the floats.
\<close>

theorem nonpositive_output_side_analysed:
  assumes od: "conv_output_dim n k cc = Inr output_side" and "output_side < 1"
    and caps: "0 < cgra_sram_size hw" "0 < central_sram_size hw" "0 < dram_size hw"
    and rate: "0 < dma_transfer_rate hw" "dma_transfer_rate hw \<le> 2 ^ 1023"
    and pos: "0 < n" "0 < k" "0 < num_channels cc" "0 < num_filters cc"
      "0 < data_type_size cc"
    and tiling: "tiling_size cc = None
       \<or> (\<exists>th tw. tiling_size cc = Some (th, tw) \<and> 0 < th \<and> 0 < tw)"
    and bound: "n\<^sup>2 * k\<^sup>2 * num_channels cc * data_type_size cc
        + k\<^sup>2 * num_channels cc * num_filters cc * data_type_size cc
        + 2 * output_side\<^sup>2 * num_filters cc * data_type_size cc \<le> 2 ^ 500"
  shows "\<exists>r. conv_analyze_point hw cc n k = Inr r
     \<and> output' (memory r) = output_side\<^sup>2 * num_filters cc * data_type_size cc
     \<and> output_dims (dimensions (memory r)) = (output_side, output_side, num_filters cc)
     \<and> computation (latencies r)
         = 2 * k\<^sup>2 * num_channels cc * output_side\<^sup>2 * num_filters cc"
proof -
  define inp where "inp = n * n * num_channels cc * data_type_size cc"
  define ker where "ker = k * k * num_channels cc * num_filters cc * data_type_size cc"
  define out where "out = output_side * output_side * num_filters cc * data_type_size cc"
  have inp0: "0 \<le> inp"
    unfolding inp_def using pos by simp
  have ker0: "0 \<le> ker"
    unfolding ker_def using pos by simp
  have out0: "0 \<le> out"
    unfolding out_def using pos by simp
  have b: "inp * k * k + ker + out * 2 \<le> 2 ^ 500"
    using bound by (simp add: inp_def ker_def out_def power2_eq_square algebra_simps)
  have k1: "1 \<le> k"
    using pos(2) by simp
  have "inp * k * 1 \<le> inp * k * k"
    using inp0 k1 by (intro mult_left_mono) simp_all
  then have ik: "inp * k \<le> inp * k * k"
    by simp
  have "inp * 1 \<le> inp * k"
    using inp0 k1 by (intro mult_left_mono) simp_all
  then have i1: "inp \<le> inp * k"
    by simp
  have tot0: "0 \<le> inp + ker + out"
    using inp0 ker0 out0 by simp
  have tot500: "inp + ker + out \<le> 2 ^ 500"
    using b i1 ik out0 by linarith
  have "\<exists>il kl ol. conv_loads n k inp ker out cc = Inr (il, kl, ol)
      \<and> 0 \<le> il + kl + ol \<and> il + kl + ol \<le> 2 ^ 500
      \<and> 0 \<le> conv_working_set (inp + ker + out) cc
      \<and> conv_working_set (inp + ker + out) cc \<le> 2 ^ 500"
    using tiling
  proof
    assume none: "tiling_size cc = None"
    have "conv_loads n k inp ker out cc = Inr (inp * k * k, ker, out * 2)"
      using none by (rule conv_loads_untiled)
    moreover have "0 \<le> inp * k * k + ker + out * 2"
      using inp0 ker0 out0 pos(2) by simp
    moreover have "conv_working_set (inp + ker + out) cc = inp + ker + out"
      using none by (simp add: conv_working_set_cases)
    ultimately show ?thesis
      using b tot0 tot500 by simp
  next
    assume "\<exists>th tw. tiling_size cc = Some (th, tw) \<and> 0 < th \<and> 0 < tw"
    then obtain th tw where tl: "tiling_size cc = Some (th, tw)" and th: "0 < th" and tw: "0 < tw"
      by blast
    define nh where "nh = (n + th - 1) div th"
    define nw where "nw = (n + tw - 1) div tw"
    have nh: "0 < nh"
      unfolding nh_def using pos(1) th by (rule tiles_positive)
    have nw: "0 < nw"
      unfolding nw_def using pos(1) tw by (rule tiles_positive)
    have d: "0 < nh * nw"
      using nh nw by simp
    define e where "e = inp div (nh * nw) * (nh * nw)"
    have e0: "0 \<le> e" and e1: "e \<le> inp"
      unfolding e_def using inp0 d by (rule div_mult_bounds)+
    have lv: "conv_loads n k inp ker out cc = Inr (e * k, ker, out)"
      using tl th tw nh nw
      by (simp add: conv_loads_def nh_def [symmetric] nw_def [symmetric] e_def mult.assoc)
    have ek0: "0 \<le> e * k"
      using e0 pos(2) by simp
    have "e * k \<le> inp * k"
      using e1 pos(2) by (intro mult_right_mono) simp_all
    with ik have ek: "e * k \<le> inp * k * k"
      by simp
    have t0: "0 \<le> e * k + ker + out"
      using ek0 ker0 out0 by simp
    have t500: "e * k + ker + out \<le> 2 ^ 500"
      using ek b out0 by linarith
    have v: "0 \<le> th * tw * num_channels cc * data_type_size cc"
      using th tw pos by simp
    have w: "conv_working_set (inp + ker + out) cc
        = min (inp + ker + out) (th * tw * num_channels cc * data_type_size cc)"
      using tl by (simp add: conv_working_set_cases)
    have w0: "0 \<le> conv_working_set (inp + ker + out) cc"
      unfolding w using tot0 v by simp
    have w500: "conv_working_set (inp + ker + out) cc \<le> 2 ^ 500"
      unfolding w using tot500 by simp
    from lv t0 t500 w0 w500 show ?thesis
      by blast
  qed
  then obtain il kl ol
    where l: "conv_loads n k inp ker out cc = Inr (il, kl, ol)"
      and t0: "0 \<le> il + kl + ol" and t500: "il + kl + ol \<le> 2 ^ 500"
      and w0: "0 \<le> conv_working_set (inp + ker + out) cc"
      and w500: "conv_working_set (inp + ker + out) cc \<le> 2 ^ 500"
    by blast
  from conv_trace_returns [OF od l [unfolded inp_def ker_def out_def] t0 t500
      w0 [unfolded inp_def ker_def out_def] w500 [unfolded inp_def ker_def out_def]
      caps(1) rate]
  obtain t where t: "conv_memory_access_trace hw n k cc = Inr t"
    by blast
  from utilization_returns [OF tot0 tot500 caps] obtain u
    where "calculate_memory_utilization hw (inp + ker + out) = Inr u"
    by blast
  from conv_point_returns [OF od t this [unfolded inp_def ker_def out_def]]
  show ?thesis
    by (auto simp: power2_eq_square mult.assoc)
qed

text \<open>The theorem at concrete inputs that satisfy its hypotheses.\<close>

theorem nonpositive_output_side_analysed_witness:
  "conv_output_dim 2 5 default_conv = Inr (- 2) \<and> (- 2 :: int) < 1
 \<and> 0 < cgra_sram_size scenario_hw \<and> 0 < central_sram_size scenario_hw
 \<and> 0 < dram_size scenario_hw
 \<and> 0 < dma_transfer_rate scenario_hw \<and> dma_transfer_rate scenario_hw \<le> 2 ^ 1023
 \<and> (0::int) < 2 \<and> (0::int) < 5 \<and> 0 < num_channels default_conv
 \<and> 0 < num_filters default_conv \<and> 0 < data_type_size default_conv
 \<and> tiling_size default_conv = None
 \<and> 2\<^sup>2 * 5\<^sup>2 * num_channels default_conv * data_type_size default_conv
      + 5\<^sup>2 * num_channels default_conv * num_filters default_conv
          * data_type_size default_conv
      + 2 * (- 2)\<^sup>2 * num_filters default_conv * data_type_size default_conv \<le> 2 ^ 500
 \<and> (\<exists>r. conv_analyze_point scenario_hw default_conv 2 5 = Inr r
       \<and> output' (memory r)
           = (- 2)\<^sup>2 * num_filters default_conv * data_type_size default_conv
       \<and> output_dims (dimensions (memory r)) = (- 2, - 2, num_filters default_conv)
       \<and> computation (latencies r)
           = 2 * 5\<^sup>2 * num_channels default_conv * (- 2)\<^sup>2 * num_filters default_conv)"
proof -
  have od: "conv_output_dim 2 5 default_conv = Inr (- 2)"
    by (simp add: conv_output_dim_def default_conv_def)
  have tl: "tiling_size default_conv = None"
    by (simp add: default_conv_def)
  have hw: "0 < cgra_sram_size scenario_hw" "0 < central_sram_size scenario_hw"
    "0 < dram_size scenario_hw" "0 < dma_transfer_rate scenario_hw"
    "dma_transfer_rate scenario_hw \<le> 2 ^ 1023"
    by (simp_all add: scenario_hw_simps)
  have cfg: "(0::int) < 2" "(0::int) < 5" "0 < num_channels default_conv"
    "0 < num_filters default_conv" "0 < data_type_size default_conv"
    by (simp_all add: default_conv_def)
  have bound: "2\<^sup>2 * 5\<^sup>2 * num_channels default_conv * data_type_size default_conv
      + 5\<^sup>2 * num_channels default_conv * num_filters default_conv
          * data_type_size default_conv
      + 2 * (- 2)\<^sup>2 * num_filters default_conv * data_type_size default_conv \<le> 2 ^ 500"
    by (simp add: default_conv_def)
  from nonpositive_output_side_analysed [OF od _ hw cfg disjI1 [OF tl] bound] od tl hw cfg bound
  show ?thesis
    by simp
qed

text \<open>
  An input side of 2 with a kernel side of 5, no padding and stride 1 has output side \<open>-2\<close>;
  the analysis returns a complete record with 16 output bytes.
\<close>

theorem invalid_workload_counterexample:
  "conv_output_dim 2 5 default_conv = Inr (- 2) \<and> (- 2 :: int) < 1
 \<and> conv_analyze_point scenario_hw default_conv 2 5 =
     Inr \<lparr> memory = \<lparr> input = 16, kernel = 100, output' = 16, total = 132,
             dimensions = \<lparr> input_dims = (2, 2, 1), kernel_dims = (5, 5, 1, 1),
               output_dims = (- 2, - 2, 1) \<rparr> \<rparr>,
           latencies = \<lparr> dram_to_central = 0, central_to_cgra = 34, computation = 200 \<rparr>,
           utilization = \<lparr> cgra_sram = 33 / 8192, central_sram = 33 / 131072,
             dram = 33 / 8388608 \<rparr>,
           total_latency = 234, input_dimension = 2, kernel_size = 5 \<rparr>"
proof -
  have "conv_output_dim 2 5 default_conv = Inr (- 2)"
    by (simp add: conv_output_dim_def default_conv_def)
  then show ?thesis
    by (simp add: conv_point_2_5)
qed

end
